theory Spec2Isabelle
  imports Main "HOL-Library.Multiset"
begin

section \<open>Documents and the document store\<close>

text \<open>
  The controllers talk to a MongoDB database through Mongoose models. A document id
  (an ObjectId) is a natural number here and a timestamp an integer (milliseconds).
  A collection that the controllers only ever read by \<open>_id\<close> is a map from ids to
  documents; the Post collection, which \<open>Post.find()\<close> enumerates, is a list of
  \<open>(_id, document)\<close> pairs in insertion order, read by \<open>_id\<close> through its first entry
  with that id.
\<close>

type_synonym oid = nat
type_synonym time = int

text \<open>
  Modelled from the spec: the identity provider (the \<open>protect\<close> middleware, which is not
  among the sources) yields a role that is "user" or "doctor".
\<close>

datatype role = RoleUser | RoleDoctor

fun role_name :: "role \<Rightarrow> string" where
  "role_name RoleUser = ''user''"
| "role_name RoleDoctor = ''doctor''"

text \<open>
  Modelled from the spec: the schemas of \<open>postModel.js\<close>, \<open>commentModel.js\<close>,
  \<open>doctorModel.js\<close> and \<open>Appointment.js\<close> are not among the sources. The fields are
  those of the spec's data model and those the controllers read and write. The
  \<open>authorType\<close> tag is one of "User" and "Doctor" and names the collection that
  \<open>author\<close> points into (Mongoose's \<open>refPath\<close>).
\<close>

datatype author_kind = User | Doctor

record entry =
  content :: string
  author :: oid
  authorType :: author_kind
  createdAt :: time

record post = entry +
  comments :: "oid list"

record comment = entry +
  post :: oid
  parentComment :: "oid option"
  replies :: "oid list"

record person =
  name :: string

record slot_entry =
  date :: string
  slots :: "string list"

record doctor_doc = person +
  specialization :: string
  availableSlots :: "slot_entry list"

record appointment =
  userId :: oid
  doctorId :: oid
  appointment_date :: string
  status :: string

record db =
  post_coll :: "(oid \<times> post) list"
  comment_coll :: "oid \<rightharpoonup> comment"
  user_coll :: "oid \<rightharpoonup> person"
  doctor_coll :: "oid \<rightharpoonup> doctor_doc"
  appointment_coll :: "oid \<rightharpoonup> appointment"

text \<open>
  What the environment supplies to a request that creates a document: the ObjectId
  the driver generates for it and the clock reading stored as \<open>createdAt\<close>.
\<close>

record env =
  new_id :: oid
  now :: time

section \<open>forumController.js\<close>

subsection \<open>capitalizeRole\<close>

text \<open>
  \<^verbatim>\<open>role.charAt(0).toUpperCase() + role.slice(1)\<close>. Strings are byte strings here, so
  \<open>toUpperCase\<close> is the ASCII one: the letters a to z are mapped to A to Z and every
  other character is kept.
\<close>

definition charAt :: "string \<Rightarrow> nat \<Rightarrow> string" where
  "charAt s i = (if i < length s then [s ! i] else [])"

definition toUpperCase_char :: "char \<Rightarrow> char" where
  "toUpperCase_char c =
     (let n = (of_char c :: nat) in if 97 \<le> n \<and> n \<le> 122 then char_of (n - 32) else c)"

definition toUpperCase :: "string \<Rightarrow> string" where
  "toUpperCase s = map toUpperCase_char s"

definition slice :: "string \<Rightarrow> nat \<Rightarrow> string" where
  "slice s i = drop i s"

definition capitalizeRole :: "string \<Rightarrow> string" where
  "capitalizeRole role = toUpperCase (charAt role 0) @ slice role 1"

text \<open>
  The schema's cast of the \<open>authorType\<close> string to the tag it stores; a string that is
  no tag fails validation.
\<close>

definition kind_of_tag :: "string \<Rightarrow> author_kind option" where
  "kind_of_tag s =
     (if s = ''User'' then Some User else if s = ''Doctor'' then Some Doctor else None)"

subsection \<open>The Mongoose calls of the controller\<close>

text \<open>
  \<open>Model.create\<close> stores the document under the id the driver generated. It fails
  when the schema rejects the \<open>authorType\<close> string, and when the id is already taken
  (the unique index on \<open>_id\<close>).
\<close>

datatype error = ValidationError | DuplicateKey

definition Post_findById :: "oid \<Rightarrow> db \<Rightarrow> post option" where
  "Post_findById i s = map_of (post_coll s) i"

definition Comment_findById :: "oid \<Rightarrow> db \<Rightarrow> comment option" where
  "Comment_findById i s = comment_coll s i"

definition Post_create ::
  "env \<Rightarrow> string \<Rightarrow> oid \<Rightarrow> string \<Rightarrow> db \<Rightarrow> error + (oid \<times> db)" where
  "Post_create e c a tag s =
     (case kind_of_tag tag of
        None \<Rightarrow> Inl ValidationError
      | Some k \<Rightarrow>
          if Post_findById (new_id e) s \<noteq> None then Inl DuplicateKey
          else Inr (new_id e,
            s\<lparr>post_coll := post_coll s @
              [(new_id e, \<lparr>content = c, author = a, authorType = k, createdAt = now e,
                  comments = []\<rparr>)]\<rparr>))"

definition Comment_create ::
  "env \<Rightarrow> string \<Rightarrow> oid \<Rightarrow> string \<Rightarrow> oid \<Rightarrow> oid option \<Rightarrow> db \<Rightarrow> error + (oid \<times> db)" where
  "Comment_create e c a tag pid parent s =
     (case kind_of_tag tag of
        None \<Rightarrow> Inl ValidationError
      | Some k \<Rightarrow>
          if Comment_findById (new_id e) s \<noteq> None then Inl DuplicateKey
          else Inr (new_id e,
            s\<lparr>comment_coll := (comment_coll s)(new_id e \<mapsto>
              \<lparr>content = c, author = a, authorType = k, createdAt = now e,
                 post = pid, parentComment = parent, replies = []\<rparr>)\<rparr>))"

text \<open>
  \<open>findByIdAndUpdate(id, { $push: { path: x } })\<close> appends \<open>x\<close> to the array of the
  document with that id and does nothing when there is no such document.
\<close>

fun push_comments :: "oid \<Rightarrow> oid \<Rightarrow> (oid \<times> post) list \<Rightarrow> (oid \<times> post) list" where
  "push_comments i x [] = []"
| "push_comments i x ((j, p) # ps) =
     (if j = i then (j, p\<lparr>comments := comments p @ [x]\<rparr>) # ps
      else (j, p) # push_comments i x ps)"

definition Post_findByIdAndUpdate_push_comments :: "oid \<Rightarrow> oid \<Rightarrow> db \<Rightarrow> db" where
  "Post_findByIdAndUpdate_push_comments i x s = s\<lparr>post_coll := push_comments i x (post_coll s)\<rparr>"

definition Comment_findByIdAndUpdate_push_replies :: "oid \<Rightarrow> oid \<Rightarrow> db \<Rightarrow> db" where
  "Comment_findByIdAndUpdate_push_replies i x s =
     (case comment_coll s i of
        None \<Rightarrow> s
      | Some c \<Rightarrow> s\<lparr>comment_coll := (comment_coll s)(i \<mapsto> c\<lparr>replies := replies c @ [x]\<rparr>)\<rparr>)"

subsection \<open>Population\<close>

text \<open>
  What a response shows of a document. A reference path is either still the stored id
  or populated: \<open>author\<close> by the fields \<open>_id\<close>, \<open>name\<close> and \<open>specialization\<close> that the
  selection "name specialization" keeps (null when the author is gone), an array of
  comment ids by the documents found for them.
\<close>

record author_fields =
  author_id :: oid
  author_name :: string
  author_specialization :: "string option"

datatype author_view = AuthorId oid | AuthorDoc "author_fields option"

datatype cview =
  is_CRef: CRef oid
| is_CDoc: CDoc (cv_id: oid) (cv_doc: comment) (cv_author: author_view) (cv_replies: "cview list")

record post_view =
  pv_id :: oid
  pv_doc :: post
  pv_author :: author_view
  pv_comments :: "cview list"

definition resolve_author :: "db \<Rightarrow> author_kind \<Rightarrow> oid \<Rightarrow> author_fields option" where
  "resolve_author s k a =
     (case k of
        User \<Rightarrow> map_option
          (\<lambda>u. \<lparr>author_id = a, author_name = name u, author_specialization = None\<rparr>)
          (user_coll s a)
      | Doctor \<Rightarrow> map_option
          (\<lambda>d. \<lparr>author_id = a, author_name = name d,
                 author_specialization = Some (specialization d)\<rparr>)
          (doctor_coll s a))"

definition load_comment :: "oid \<Rightarrow> comment \<Rightarrow> cview" where
  "load_comment i c = CDoc i c (AuthorId (author c)) (map CRef (replies c))"

definition load_post :: "oid \<times> post \<Rightarrow> post_view" where
  "load_post ip =
     \<lparr>pv_id = fst ip, pv_doc = snd ip, pv_author = AuthorId (author (snd ip)),
      pv_comments = map CRef (comments (snd ip))\<rparr>"

text \<open>
  Populating an array of ids fetches the comments with these ids: in the order of the
  array, an id without a document dropped.
\<close>

definition find_comments :: "db \<Rightarrow> oid list \<Rightarrow> cview list" where
  "find_comments s ids =
     List.map_filter (\<lambda>i. map_option (load_comment i) (Comment_findById i s)) ids"

text \<open>
  The populate options of a Comment: a path and the options applied to the documents
  fetched for it. \<open>select\<close> is "name specialization" wherever the source gives one.
\<close>

datatype cpath = PathAuthor | PathReplies

datatype popt = Popt cpath "popt list"

fun populate_comment :: "db \<Rightarrow> popt \<Rightarrow> cview \<Rightarrow> cview" where
  "populate_comment s (Popt p subs) (CRef i) = CRef i"
| "populate_comment s (Popt PathAuthor subs) (CDoc i c a rs) =
     CDoc i c (AuthorDoc (resolve_author s (authorType c) (author c))) rs"
| "populate_comment s (Popt PathReplies subs) (CDoc i c a rs) =
     CDoc i c a
       (map (\<lambda>r. fold (\<lambda>sub v. populate_comment s sub v) subs r) (find_comments s (replies c)))"

definition commentPopulation :: popt where
  "commentPopulation =
     Popt PathReplies
       [Popt PathAuthor [],
        Popt PathReplies [Popt PathAuthor []]]"

definition populate_post_author :: "db \<Rightarrow> post_view \<Rightarrow> post_view" where
  "populate_post_author s v =
     v\<lparr>pv_author := AuthorDoc (resolve_author s (authorType (pv_doc v)) (author (pv_doc v)))\<rparr>"

text \<open>
  The \<open>comments\<close> path of a Post with \<open>options: { sort: { createdAt: 1 } }\<close>: the
  documents come in the order of the sorted query, each one once.
\<close>

definition populate_post_comments :: "db \<Rightarrow> popt list \<Rightarrow> post_view \<Rightarrow> post_view" where
  "populate_post_comments s subs v =
     v\<lparr>pv_comments :=
         map (\<lambda>r. fold (populate_comment s) subs r)
           (sort_key (\<lambda>c. createdAt (cv_doc c))
              (find_comments s (remdups (comments (pv_doc v)))))\<rparr>"

subsection \<open>The handlers\<close>

text \<open>
  A request carries what the handlers read of it: the route parameter \<open>postId\<close>, the
  body's \<open>content\<close> and \<open>parentCommentId\<close> (\<open>None\<close> when the body leaves the field out or
  gives null), and the identity that the middleware attached. The test \<^verbatim>\<open>!content\<close> holds
  of a missing content and of the empty string; \<^verbatim>\<open>parentCommentId\<close> as a condition holds
  of every id.

  The catch branch of a handler answers 500 when a Mongoose call throws. Here the calls
  that can throw are the two creates. A lost connection to the database is not
  modelled, so \<open>getAllPosts\<close>, whose calls only read, always answers 200.

  \<open>sort_key\<close> is a stable sort. MongoDB leaves the order of documents with equal
  \<open>createdAt\<close> open; no property below depends on it.
\<close>

datatype body =
  Message string
| Failure string error
| PostList "post_view list"
| PostDoc "post_view option"
| CommentDoc "cview option"
| DoctorUpdated string doctor_doc
| AppointmentUpdated string appointment

datatype response = Response nat body

record forum_req =
  req_postId :: oid
  req_content :: "string option"
  req_parentCommentId :: "oid option"
  req_user_id :: oid
  req_user_role :: role

definition getAllPosts :: "db \<Rightarrow> response" where
  "getAllPosts s =
     (let posts =
        map (\<lambda>ip. populate_post_comments s [Popt PathAuthor [], commentPopulation]
                    (populate_post_author s (load_post ip)))
          (sort_key (\<lambda>ip. - createdAt (snd ip)) (post_coll s))
      in Response 200 (PostList posts))"

definition createPost :: "env \<Rightarrow> forum_req \<Rightarrow> db \<Rightarrow> response \<times> db" where
  "createPost e req s =
     (let authorId = req_user_id req;
          authorType = capitalizeRole (role_name (req_user_role req))
      in case req_content req of
           None \<Rightarrow> (Response 400 (Message ''Post content cannot be empty''), s)
         | Some c \<Rightarrow>
             if c = [] then (Response 400 (Message ''Post content cannot be empty''), s)
             else
               (case Post_create e c authorId authorType s of
                  Inl err \<Rightarrow> (Response 500 (Failure ''Error creating post'' err), s)
                | Inr (pid, s1) \<Rightarrow>
                    let populatedPost =
                          map_option (\<lambda>p. populate_post_author s1 (load_post (pid, p)))
                            (Post_findById pid s1)
                    in (Response 201 (PostDoc populatedPost), s1)))"

definition createComment :: "env \<Rightarrow> forum_req \<Rightarrow> db \<Rightarrow> response \<times> db" where
  "createComment e req s =
     (let postId = req_postId req;
          parentCommentId = req_parentCommentId req;
          authorId = req_user_id req;
          authorType = capitalizeRole (role_name (req_user_role req))
      in case req_content req of
           None \<Rightarrow> (Response 400 (Message ''Comment content cannot be empty''), s)
         | Some c \<Rightarrow>
             if c = [] then (Response 400 (Message ''Comment content cannot be empty''), s)
             else
               (case Comment_create e c authorId authorType postId parentCommentId s of
                  Inl err \<Rightarrow> (Response 500 (Failure ''Error creating comment'' err), s)
                | Inr (cid, s1) \<Rightarrow>
                    let s2 =
                          (case parentCommentId of
                             Some parent \<Rightarrow> Comment_findByIdAndUpdate_push_replies parent cid s1
                           | None \<Rightarrow> Post_findByIdAndUpdate_push_comments postId cid s1);
                        populatedComment =
                          map_option (\<lambda>c. populate_comment s2 (Popt PathAuthor []) (load_comment cid c))
                            (Comment_findById cid s2)
                    in (Response 201 (CommentDoc populatedComment), s2)))"

section \<open>doctorController.js\<close>

text \<open>
  Of this controller the two handlers below are modelled. Dates are strings, compared
  by \<^verbatim>\<open>===\<close>; \<open>save()\<close> writes the document back under its id and does not fail.
\<close>

record avail_req =
  req_doctorId :: oid
  req_date :: string
  req_slots :: "string list"

record complete_req =
  req_doctor_user_id :: oid
  req_appointmentId :: oid

text \<open>
  \<^verbatim>\<open>existing.slots = slots\<close> writes to the entry that
  \<^verbatim>\<open>availableSlots.find(d => d.date === date)\<close> returned: the first one with that date.
\<close>

fun assign_slots :: "string \<Rightarrow> string list \<Rightarrow> slot_entry list \<Rightarrow> slot_entry list" where
  "assign_slots d sl [] = []"
| "assign_slots d sl (x # xs) =
     (if date x = d then x\<lparr>slots := sl\<rparr> # xs else x # assign_slots d sl xs)"

definition setAvailability :: "avail_req \<Rightarrow> db \<Rightarrow> response \<times> db" where
  "setAvailability req s =
     (let date' = req_date req; slots' = req_slots req
      in case doctor_coll s (req_doctorId req) of
           None \<Rightarrow> (Response 404 (Message ''Doctor not found''), s)
         | Some doctor \<Rightarrow>
             let doctor' =
                   (case find (\<lambda>d. date d = date') (availableSlots doctor) of
                      Some existing \<Rightarrow>
                        doctor\<lparr>availableSlots := assign_slots date' slots' (availableSlots doctor)\<rparr>
                    | None \<Rightarrow>
                        doctor\<lparr>availableSlots :=
                          availableSlots doctor @ [\<lparr>date = date', slots = slots'\<rparr>]\<rparr>);
                 s' = s\<lparr>doctor_coll := (doctor_coll s)(req_doctorId req \<mapsto> doctor')\<rparr>
             in (Response 200 (DoctorUpdated ''Availability updated'' doctor'), s'))"

definition Appointment_findOne :: "oid \<Rightarrow> oid \<Rightarrow> db \<Rightarrow> appointment option" where
  "Appointment_findOne i d s =
     (case appointment_coll s i of
        None \<Rightarrow> None
      | Some a \<Rightarrow> if doctorId a = d then Some a else None)"

definition markAppointmentCompleted :: "complete_req \<Rightarrow> db \<Rightarrow> response \<times> db" where
  "markAppointmentCompleted req s =
     (let doctorId' = req_doctor_user_id req;
          appointmentId = req_appointmentId req
      in case Appointment_findOne appointmentId doctorId' s of
           None \<Rightarrow> (Response 404 (Message ''Appointment not found or unauthorized''), s)
         | Some appointment \<Rightarrow>
             if status appointment = ''completed''
             then (Response 400 (Message ''Appointment already marked as completed''), s)
             else
               let appointment' = appointment\<lparr>status := ''completed''\<rparr>;
                   s' = s\<lparr>appointment_coll := (appointment_coll s)(appointmentId \<mapsto> appointment')\<rparr>
               in (Response 200
                     (AppointmentUpdated ''Appointment marked as completed successfully''
                        appointment'), s'))"

section \<open>A sample store\<close>

text \<open>
  Two posts; the older one has the top-level comments 11 and 15, and under 11 the reply
  chain 12, 13, 14. One user, one doctor, two appointments of that doctor.
\<close>

definition mk_comment :: "string \<Rightarrow> oid \<Rightarrow> author_kind \<Rightarrow> time \<Rightarrow> oid \<Rightarrow> oid option \<Rightarrow> oid list \<Rightarrow> comment" where
  "mk_comment c a k t p par rs =
     \<lparr>content = c, author = a, authorType = k, createdAt = t, post = p, parentComment = par,
      replies = rs\<rparr>"

definition sample_db :: db where
  "sample_db =
     \<lparr>post_coll =
        [(10, \<lparr>content = ''Flu season'', author = 3, authorType = User, createdAt = 100,
               comments = [11, 15]\<rparr>),
         (20, \<lparr>content = ''Clinic hours'', author = 2, authorType = Doctor, createdAt = 200,
               comments = []\<rparr>)],
      comment_coll =
        [11 \<mapsto> mk_comment ''A'' 2 Doctor 120 10 None [12],
         12 \<mapsto> mk_comment ''B'' 3 User 130 10 (Some 11) [13],
         13 \<mapsto> mk_comment ''C'' 2 Doctor 140 10 (Some 12) [14],
         14 \<mapsto> mk_comment ''D'' 3 User 150 10 (Some 13) [],
         15 \<mapsto> mk_comment ''E'' 3 User 110 10 None []],
      user_coll = [3 \<mapsto> \<lparr>name = ''Ann''\<rparr>],
      doctor_coll =
        [2 \<mapsto> \<lparr>name = ''Bob'', specialization = ''Cardiology'',
               availableSlots = [\<lparr>date = ''2025-01-01'', slots = [''09:00'']\<rparr>]\<rparr>],
      appointment_coll =
        [30 \<mapsto> \<lparr>userId = 3, doctorId = 2, appointment_date = ''2025-01-01'',
                status = ''pending''\<rparr>,
         31 \<mapsto> \<lparr>userId = 3, doctorId = 2, appointment_date = ''2025-01-02'',
                status = ''completed''\<rparr>]\<rparr>"

definition sample_ann :: "author_fields option" where
  "sample_ann = Some \<lparr>author_id = 3, author_name = ''Ann'', author_specialization = None\<rparr>"

definition sample_bob :: "author_fields option" where
  "sample_bob =
     Some \<lparr>author_id = 2, author_name = ''Bob'', author_specialization = Some ''Cardiology''\<rparr>"

definition sample_req :: "oid \<Rightarrow> string option \<Rightarrow> oid option \<Rightarrow> forum_req" where
  "sample_req pid c par =
     \<lparr>req_postId = pid, req_content = c, req_parentCommentId = par, req_user_id = 3,
      req_user_role = RoleUser\<rparr>"

section \<open>Notions used by the properties\<close>

text \<open>The tag that the spec assigns to a role: "user" to "User", "doctor" to "Doctor".\<close>

fun role_kind :: "role \<Rightarrow> author_kind" where
  "role_kind RoleUser = User"
| "role_kind RoleDoctor = Doctor"

text \<open>
  The comments stored under the ids of an array, with their ids: in the order of the
  array, an id without a document dropped.
\<close>

definition stored_comments :: "db \<Rightarrow> oid list \<Rightarrow> (oid \<times> comment) list" where
  "stored_comments s ids = List.map_filter (\<lambda>i. map_option (Pair i) (comment_coll s i)) ids"

text \<open>
  A comment hydrated to a depth, as the spec describes hydration: the author resolved
  and the replies expanded the same way, \<open>n\<close> more levels deep; below that the replies
  are left as the stored ids.
\<close>

fun hydrate :: "db \<Rightarrow> nat \<Rightarrow> oid \<times> comment \<Rightarrow> cview" where
  "hydrate s 0 ic =
     CDoc (fst ic) (snd ic)
       (AuthorDoc (resolve_author s (authorType (snd ic)) (author (snd ic))))
       (map CRef (replies (snd ic)))"
| "hydrate s (Suc n) ic =
     CDoc (fst ic) (snd ic)
       (AuthorDoc (resolve_author s (authorType (snd ic)) (author (snd ic))))
       (map (hydrate s n) (stored_comments s (replies (snd ic))))"

text \<open>
  A post hydrated to a depth: its author resolved, and its top-level comments, oldest
  first, each hydrated to that depth.
\<close>

definition hydrate_post :: "db \<Rightarrow> nat \<Rightarrow> oid \<times> post \<Rightarrow> post_view" where
  "hydrate_post s n ip =
     \<lparr>pv_id = fst ip, pv_doc = snd ip,
      pv_author = AuthorDoc (resolve_author s (authorType (snd ip)) (author (snd ip))),
      pv_comments =
        map (hydrate s n)
          (sort_key (\<lambda>ic. createdAt (snd ic))
             (stored_comments s (remdups (comments (snd ip)))))\<rparr>"

text \<open>
  The Comment document that createComment stores for a request with content \<open>c\<close>: it
  references the post and the parent named by the request and has no replies yet.
\<close>

definition new_comment :: "env \<Rightarrow> forum_req \<Rightarrow> string \<Rightarrow> comment" where
  "new_comment e req c =
     \<lparr>content = c, author = req_user_id req, authorType = role_kind (req_user_role req),
      createdAt = now e, post = req_postId req, parentComment = req_parentCommentId req,
      replies = []\<rparr>"

text \<open>
  How two stores can differ in the documents of the first. All posts are kept as they
  are (new ones may follow them); all comments are kept as they are; one post has got
  one id appended to its \<open>comments\<close> and nothing else is different in the Post
  collection; one comment has got one id appended to its \<open>replies\<close> and every other comment
  is kept as it is.
\<close>

definition posts_kept :: "db \<Rightarrow> db \<Rightarrow> bool" where
  "posts_kept s s' = (\<exists>added. post_coll s' = post_coll s @ added)"

definition comments_kept :: "db \<Rightarrow> db \<Rightarrow> bool" where
  "comments_kept s s' = (\<forall>i c. comment_coll s i = Some c \<longrightarrow> comment_coll s' i = Some c)"

definition one_post_pushed :: "db \<Rightarrow> db \<Rightarrow> bool" where
  "one_post_pushed s s' =
     (\<exists>pre i p suf x.
        post_coll s = pre @ (i, p) # suf \<and>
        post_coll s' = pre @ (i, p\<lparr>comments := comments p @ [x]\<rparr>) # suf)"

definition one_comment_pushed :: "db \<Rightarrow> db \<Rightarrow> bool" where
  "one_comment_pushed s s' =
     (\<exists>j c x.
        comment_coll s j = Some c \<and>
        comment_coll s' j = Some (c\<lparr>replies := replies c @ [x]\<rparr>) \<and>
        (\<forall>i c'. i \<noteq> j \<longrightarrow> comment_coll s i = Some c' \<longrightarrow> comment_coll s' i = Some c'))"

text \<open>
  A document that is as it was or has got one id appended to its array of children:
  a post to its \<open>comments\<close>, a comment to its \<open>replies\<close>.
\<close>

definition post_grown :: "oid \<times> post \<Rightarrow> oid \<times> post \<Rightarrow> bool" where
  "post_grown ip ip' =
     (ip' = ip \<or>
      (\<exists>x. ip' = (fst ip, (snd ip)\<lparr>comments := comments (snd ip) @ [x]\<rparr>)))"

definition comment_grown :: "comment \<Rightarrow> comment \<Rightarrow> bool" where
  "comment_grown c c' = (c' = c \<or> (\<exists>x. c' = c\<lparr>replies := replies c @ [x]\<rparr>))"

text \<open>
  An id is unused in a store when no comment has it and no \<open>comments\<close> or \<open>replies\<close>
  array holds it: what holds of an ObjectId the driver has just generated.
\<close>

definition unused :: "db \<Rightarrow> oid \<Rightarrow> bool" where
  "unused s x =
     (comment_coll s x = None \<and>
      (\<forall>ip \<in> set (post_coll s). x \<notin> set (comments (snd ip))) \<and>
      (\<forall>j c. comment_coll s j = Some c \<longrightarrow> x \<notin> set (replies c)))"

text \<open>
  The ids in the discussion tree of some post: those in a post's \<open>comments\<close>, and those
  in the \<open>replies\<close> of a stored comment whose id is in a tree.
\<close>

inductive in_tree :: "db \<Rightarrow> oid \<Rightarrow> bool" for s :: db where
  top: "ip \<in> set (post_coll s) \<Longrightarrow> x \<in> set (comments (snd ip)) \<Longrightarrow> in_tree s x"
| reply: "in_tree s j \<Longrightarrow> comment_coll s j = Some c \<Longrightarrow> x \<in> set (replies c) \<Longrightarrow> in_tree s x"

text \<open>
  The comment ids that a response shows, expanded or bare, anywhere in the trees of the
  posts it lists.
\<close>

fun cview_ids :: "cview \<Rightarrow> oid set" where
  "cview_ids (CRef i) = {i}"
| "cview_ids (CDoc i c a rs) = insert i (\<Union> (cview_ids ` set rs))"

fun listed_ids :: "response \<Rightarrow> oid set" where
  "listed_ids (Response code (PostList vs)) =
     (\<Union>v \<in> set vs. \<Union> (cview_ids ` set (pv_comments v)))"
| "listed_ids (Response code other) = {}"

text \<open>The three operations the forum routes expose, run on a store.\<close>

datatype forum_op = ListPosts | CreatePost env forum_req | CreateComment env forum_req

fun run :: "forum_op \<Rightarrow> db \<Rightarrow> response \<times> db" where
  "run ListPosts s = (getAllPosts s, s)"
| "run (CreatePost e req) s = createPost e req s"
| "run (CreateComment e req) s = createComment e req s"

section \<open>Properties of forumController.js\<close>

lemma capitalizeRole_Cons: "capitalizeRole (c # cs) = toUpperCase_char c # cs"
  by (simp add: capitalizeRole_def charAt_def toUpperCase_def slice_def)

lemma toUpperCase_char_u: "toUpperCase_char (CHR ''u'') = CHR ''U''"
  by code_simp

lemma toUpperCase_char_d: "toUpperCase_char (CHR ''d'') = CHR ''D''"
  by code_simp

lemma capitalizeRole_user: "capitalizeRole ''user'' = ''User''"
  by (simp add: capitalizeRole_Cons toUpperCase_char_u)

lemma capitalizeRole_doctor: "capitalizeRole ''doctor'' = ''Doctor''"
  by (simp add: capitalizeRole_Cons toUpperCase_char_d)

lemma kind_of_tag_role: "kind_of_tag (capitalizeRole (role_name r)) = Some (role_kind r)"
  by (cases r) (simp_all add: capitalizeRole_user capitalizeRole_doctor kind_of_tag_def)

text \<open>
  C7. The derivation of the author tag that createPost and createComment use maps the
  role "user" to "User" and the role "doctor" to "Doctor": the first character is
  uppercased and the rest is kept, and the schema reads the result as the tag of the role.
\<close>

theorem capitalizeRole_roles:
  "capitalizeRole ''user'' = ''User'' \<and> capitalizeRole ''doctor'' = ''Doctor'' \<and>
   (\<forall>c cs. capitalizeRole (c # cs) = toUpperCase_char c # cs) \<and>
   (\<forall>r. kind_of_tag (capitalizeRole (role_name r)) = Some (role_kind r))"
  by (simp add: capitalizeRole_user capitalizeRole_doctor capitalizeRole_Cons
      kind_of_tag_role toUpperCase_char_u toUpperCase_char_d)

lemma map_of_snoc_fresh: "map_of ps i = None \<Longrightarrow> map_of (ps @ [(i, p)]) i = Some p"
  by (induction ps) auto

lemma resolve_author_post_coll [simp]: "resolve_author (s\<lparr>post_coll := x\<rparr>) = resolve_author s"
  by (simp add: resolve_author_def fun_eq_iff split: author_kind.split)

lemma resolve_author_comment_coll [simp]:
  "resolve_author (s\<lparr>comment_coll := x\<rparr>) = resolve_author s"
  by (simp add: resolve_author_def fun_eq_iff split: author_kind.split)

text \<open>
  C4. createPost and createComment with a missing or empty content answer 400 and leave
  the store as it was. createPost with a non-empty content, the generated id not being
  taken, answers 201 and leaves the store with exactly one more Post: the new document,
  appended to the collection, with nothing else changed.
\<close>

theorem empty_content_rejected:
  "(req_content req = None \<or> req_content req = Some [] \<longrightarrow>
      createPost e req s = (Response 400 (Message ''Post content cannot be empty''), s) \<and>
      createComment e req s = (Response 400 (Message ''Comment content cannot be empty''), s)) \<and>
   (\<forall>c. req_content req = Some c \<and> c \<noteq> [] \<and> Post_findById (new_id e) s = None \<longrightarrow>
      createPost e req s =
        (Response 201 (PostDoc (Some
           \<lparr>pv_id = new_id e,
            pv_doc = \<lparr>content = c, author = req_user_id req,
               authorType = role_kind (req_user_role req), createdAt = now e, comments = []\<rparr>,
            pv_author = AuthorDoc
               (resolve_author s (role_kind (req_user_role req)) (req_user_id req)),
            pv_comments = []\<rparr>)),
         s\<lparr>post_coll := post_coll s @
            [(new_id e, \<lparr>content = c, author = req_user_id req,
                authorType = role_kind (req_user_role req), createdAt = now e,
                comments = []\<rparr>)]\<rparr>))"
proof (intro conjI impI allI)
  assume "req_content req = None \<or> req_content req = Some []"
  then show "createPost e req s = (Response 400 (Message ''Post content cannot be empty''), s)"
    by (auto simp: createPost_def)
next
  assume "req_content req = None \<or> req_content req = Some []"
  then show "createComment e req s =
      (Response 400 (Message ''Comment content cannot be empty''), s)"
    by (auto simp: createComment_def)
next
  fix c
  assume "req_content req = Some c \<and> c \<noteq> [] \<and> Post_findById (new_id e) s = None"
  then show "createPost e req s =
        (Response 201 (PostDoc (Some
           \<lparr>pv_id = new_id e,
            pv_doc = \<lparr>content = c, author = req_user_id req,
               authorType = role_kind (req_user_role req), createdAt = now e, comments = []\<rparr>,
            pv_author = AuthorDoc
               (resolve_author s (role_kind (req_user_role req)) (req_user_id req)),
            pv_comments = []\<rparr>)),
         s\<lparr>post_coll := post_coll s @
            [(new_id e, \<lparr>content = c, author = req_user_id req,
                authorType = role_kind (req_user_role req), createdAt = now e,
                comments = []\<rparr>)]\<rparr>)"
    by (simp add: createPost_def Post_create_def kind_of_tag_role Post_findById_def
        populate_post_author_def load_post_def map_of_snoc_fresh Let_def del: map_of_append)
qed

theorem empty_content_rejected_witness:
  "req_content (sample_req 10 (Some []) None) = Some [] \<and>
   createPost \<lparr>new_id = 21, now = 300\<rparr> (sample_req 10 (Some []) None) sample_db =
     (Response 400 (Message ''Post content cannot be empty''), sample_db) \<and>
   createComment \<lparr>new_id = 21, now = 300\<rparr> (sample_req 10 (Some []) None) sample_db =
     (Response 400 (Message ''Comment content cannot be empty''), sample_db) \<and>
   req_content (sample_req 10 (Some ''Hi'') None) = Some ''Hi'' \<and>
   Post_findById 21 sample_db = None \<and>
   createPost \<lparr>new_id = 21, now = 300\<rparr> (sample_req 10 (Some ''Hi'') None) sample_db =
     (Response 201 (PostDoc (Some
        \<lparr>pv_id = 21,
         pv_doc = \<lparr>content = ''Hi'', author = 3, authorType = User, createdAt = 300,
            comments = []\<rparr>,
         pv_author = AuthorDoc
            (Some \<lparr>author_id = 3, author_name = ''Ann'', author_specialization = None\<rparr>),
         pv_comments = []\<rparr>)),
      sample_db\<lparr>post_coll := post_coll sample_db @
         [(21, \<lparr>content = ''Hi'', author = 3, authorType = User, createdAt = 300,
             comments = []\<rparr>)]\<rparr>)"
proof -
  have fresh: "Post_findById 21 sample_db = None"
    by (simp add: Post_findById_def sample_db_def)
  have author: "resolve_author sample_db User 3 =
      Some \<lparr>author_id = 3, author_name = ''Ann'', author_specialization = None\<rparr>"
    by (simp add: resolve_author_def sample_db_def)
  show ?thesis
    using fresh author
      empty_content_rejected [of "sample_req 10 (Some []) None" "\<lparr>new_id = 21, now = 300\<rparr>" sample_db]
      empty_content_rejected [of "sample_req 10 (Some ''Hi'') None" "\<lparr>new_id = 21, now = 300\<rparr>" sample_db]
    by (simp add: sample_req_def)
qed

lemma populate_comment_doc: "cv_doc (populate_comment s sub v) = cv_doc v"
  by (cases "(s, sub, v)" rule: populate_comment.cases) simp_all

lemma populate_comment_id: "cv_id (populate_comment s sub v) = cv_id v"
  by (cases "(s, sub, v)" rule: populate_comment.cases) simp_all

lemma populate_comment_is_CDoc: "is_CDoc (populate_comment s sub v) = is_CDoc v"
  by (cases "(s, sub, v)" rule: populate_comment.cases) simp_all

lemma find_comments_stored:
  "find_comments s ids = map (\<lambda>ic. load_comment (fst ic) (snd ic)) (stored_comments s ids)"
  by (induction ids) (auto simp: find_comments_def stored_comments_def Comment_findById_def List.map_filter_simps split: option.splits)

lemma stored_comments_ids:
  "map fst (stored_comments s ids) = filter (\<lambda>i. comment_coll s i \<noteq> None) ids"
  by (induction ids) (auto simp: stored_comments_def List.map_filter_simps split: option.splits)

lemma find_comments_is_CDoc: "v \<in> set (find_comments s ids) \<Longrightarrow> is_CDoc v"
  by (auto simp: find_comments_stored load_comment_def)

lemma find_comments_ids: "map cv_id (find_comments s ids) = filter (\<lambda>i. comment_coll s i \<noteq> None) ids"
proof -
  have "map cv_id (find_comments s ids) = map fst (stored_comments s ids)"
    by (simp add: find_comments_stored load_comment_def o_def)
  then show ?thesis by (simp only: stored_comments_ids)
qed

text \<open>
  C3. For every store, getAllPosts answers 200 with all the posts, newest first by
  \<open>createdAt\<close>; and in each post shown, the top-level comments are the stored comments
  named in its \<open>comments\<close> array, each expanded, oldest first by \<open>createdAt\<close>.
\<close>

theorem getAllPosts_ordering:
  "\<exists>vs. getAllPosts s = Response 200 (PostList vs) \<and>
     mset (map (\<lambda>v. (pv_id v, pv_doc v)) vs) = mset (post_coll s) \<and>
     sorted_wrt (\<lambda>v w. createdAt (pv_doc v) \<ge> createdAt (pv_doc w)) vs \<and>
     (\<forall>v \<in> set vs.
        (\<forall>c \<in> set (pv_comments v). is_CDoc c) \<and>
        mset (map cv_id (pv_comments v)) =
          mset (filter (\<lambda>i. comment_coll s i \<noteq> None) (remdups (comments (pv_doc v)))) \<and>
        sorted (map (\<lambda>c. createdAt (cv_doc c)) (pv_comments v)))"
proof -
  let ?subs = "[Popt PathAuthor [], commentPopulation]"
  let ?view = "\<lambda>ip. populate_post_comments s ?subs (populate_post_author s (load_post ip))"
  let ?ps = "sort_key (\<lambda>ip. - createdAt (snd ip)) (post_coll s)"
  let ?vs = "map ?view ?ps"
  have id_doc: "\<And>ip. (pv_id (?view ip), pv_doc (?view ip)) = ip"
    by (simp add: populate_post_comments_def populate_post_author_def load_post_def)
  have r: "getAllPosts s = Response 200 (PostList ?vs)"
    by (simp add: getAllPosts_def)
  have m: "mset (map (\<lambda>v. (pv_id v, pv_doc v)) ?vs) = mset (post_coll s)"
    by (simp add: o_def id_doc)
  have "sorted (map (\<lambda>ip. - createdAt (snd ip)) ?ps)"
    by (rule sorted_sort_key)
  then have "sorted_wrt (\<lambda>a b. createdAt (snd a) \<ge> createdAt (snd b)) ?ps"
    by (simp add: sorted_wrt_map)
  moreover have "\<And>ip. pv_doc (?view ip) = snd ip"
    using id_doc by (metis snd_conv)
  ultimately have o: "sorted_wrt (\<lambda>v w. createdAt (pv_doc v) \<ge> createdAt (pv_doc w)) ?vs"
    by (simp add: sorted_wrt_map)
  have c: "\<forall>v \<in> set ?vs.
        (\<forall>c \<in> set (pv_comments v). is_CDoc c) \<and>
        mset (map cv_id (pv_comments v)) =
          mset (filter (\<lambda>i. comment_coll s i \<noteq> None) (remdups (comments (pv_doc v)))) \<and>
        sorted (map (\<lambda>c. createdAt (cv_doc c)) (pv_comments v))"
  proof
    fix v assume "v \<in> set ?vs"
    then obtain ip where v: "v = ?view ip" by auto
    let ?cs = "sort_key (\<lambda>c. createdAt (cv_doc c)) (find_comments s (remdups (comments (snd ip))))"
    have pc: "pv_comments v = map (\<lambda>r. fold (populate_comment s) ?subs r) ?cs"
      by (simp add: v populate_post_comments_def populate_post_author_def load_post_def)
    have d: "pv_doc v = snd ip"
      by (simp add: v populate_post_comments_def populate_post_author_def load_post_def)
    have 1: "\<forall>c \<in> set (pv_comments v). is_CDoc c"
      unfolding pc by (auto simp: populate_comment_is_CDoc find_comments_is_CDoc)
    have "map cv_id (pv_comments v) = map cv_id ?cs"
      unfolding pc by (simp add: populate_comment_id o_def)
    then have "mset (map cv_id (pv_comments v)) = mset (map cv_id (find_comments s (remdups (comments (snd ip)))))"
      by simp
    then have 2: "mset (map cv_id (pv_comments v)) =
          mset (filter (\<lambda>i. comment_coll s i \<noteq> None) (remdups (comments (pv_doc v))))"
      by (simp only: find_comments_ids d)
    have "map (\<lambda>c. createdAt (cv_doc c)) (pv_comments v) = map (\<lambda>c. createdAt (cv_doc c)) ?cs"
      unfolding pc by (simp add: populate_comment_doc o_def)
    then have 3: "sorted (map (\<lambda>c. createdAt (cv_doc c)) (pv_comments v))"
      by (simp only: sorted_sort_key)
    from 1 2 3 show "(\<forall>c \<in> set (pv_comments v). is_CDoc c) \<and>
        mset (map cv_id (pv_comments v)) =
          mset (filter (\<lambda>i. comment_coll s i \<noteq> None) (remdups (comments (pv_doc v)))) \<and>
        sorted (map (\<lambda>c. createdAt (cv_doc c)) (pv_comments v))"
      by (intro conjI)
  qed
  from r m o c show ?thesis by (intro exI [of _ ?vs] conjI)
qed

lemma resolve_sample:
  "resolve_author sample_db User 3 = sample_ann"
  "resolve_author sample_db Doctor 2 = sample_bob"
  by (simp_all add: resolve_author_def sample_db_def sample_ann_def sample_bob_def)

lemma sample_comments:
  "comment_coll sample_db 11 = Some (mk_comment ''A'' 2 Doctor 120 10 None [12])"
  "comment_coll sample_db 12 = Some (mk_comment ''B'' 3 User 130 10 (Some 11) [13])"
  "comment_coll sample_db 13 = Some (mk_comment ''C'' 2 Doctor 140 10 (Some 12) [14])"
  "comment_coll sample_db 14 = Some (mk_comment ''D'' 3 User 150 10 (Some 13) [])"
  "comment_coll sample_db 15 = Some (mk_comment ''E'' 3 User 110 10 None [])"
  by (simp_all add: sample_db_def)

lemma mk_comment_sel [simp]:
  "author (mk_comment c a k t p par rs) = a"
  "authorType (mk_comment c a k t p par rs) = k"
  "createdAt (mk_comment c a k t p par rs) = t"
  "replies (mk_comment c a k t p par rs) = rs"
  by (simp_all add: mk_comment_def)

lemma find_comments_Nil [simp]: "find_comments s [] = []"
  by (simp add: find_comments_def List.map_filter_simps)

lemma find_comments_Cons [simp]: "find_comments s (i # ids) =
   (case comment_coll s i of None \<Rightarrow> find_comments s ids | Some c \<Rightarrow> load_comment i c # find_comments s ids)"
  by (simp add: find_comments_def List.map_filter_simps Comment_findById_def split: option.split)

lemma getAllPosts_sample:
  "getAllPosts sample_db = Response 200 (PostList
     [\<lparr>pv_id = 20,
       pv_doc = \<lparr>content = ''Clinic hours'', author = 2, authorType = Doctor, createdAt = 200, comments = []\<rparr>,
       pv_author = AuthorDoc sample_bob,
       pv_comments = []\<rparr>,
      \<lparr>pv_id = 10,
       pv_doc = \<lparr>content = ''Flu season'', author = 3, authorType = User, createdAt = 100, comments = [11, 15]\<rparr>,
       pv_author = AuthorDoc sample_ann,
       pv_comments =
         [CDoc 15 (mk_comment ''E'' 3 User 110 10 None []) (AuthorDoc sample_ann) [],
          CDoc 11 (mk_comment ''A'' 2 Doctor 120 10 None [12]) (AuthorDoc sample_bob)
            [CDoc 12 (mk_comment ''B'' 3 User 130 10 (Some 11) [13]) (AuthorDoc sample_ann)
               [CDoc 13 (mk_comment ''C'' 2 Doctor 140 10 (Some 12) [14]) (AuthorDoc sample_bob)
                  [CRef 14]]]]\<rparr>])"
proof -
  have ps: "post_coll sample_db = [(10, \<lparr>content = ''Flu season'', author = 3, authorType = User, createdAt = 100,
               comments = [11, 15]\<rparr>),
         (20, \<lparr>content = ''Clinic hours'', author = 2, authorType = Doctor, createdAt = 200,
               comments = []\<rparr>)]"
    by (simp add: sample_db_def)
  show ?thesis
    by (simp add: getAllPosts_def ps populate_post_comments_def populate_post_author_def load_post_def
      commentPopulation_def sample_comments resolve_sample load_comment_def)
qed

theorem getAllPosts_ordering_witness:
  "\<exists>vs. getAllPosts sample_db = Response 200 (PostList vs) \<and>
     map pv_id vs = [20, 10] \<and>
     map (\<lambda>v. createdAt (pv_doc v)) vs = [200, 100] \<and>
     sorted_wrt (\<lambda>v w. createdAt (pv_doc v) \<ge> createdAt (pv_doc w)) vs \<and>
     map (\<lambda>v. map cv_id (pv_comments v)) vs = [[], [15, 11]] \<and>
     map (\<lambda>v. map (\<lambda>c. createdAt (cv_doc c)) (pv_comments v)) vs = [[], [110, 120]]"
proof -
  from getAllPosts_ordering [of sample_db] obtain vs where
    vs: "getAllPosts sample_db = Response 200 (PostList vs)" and
    ord: "sorted_wrt (\<lambda>v w. createdAt (pv_doc v) \<ge> createdAt (pv_doc w)) vs"
    by (elim exE conjE)
  from vs have ids: "map pv_id vs = [20, 10]"
    and times: "map (\<lambda>v. createdAt (pv_doc v)) vs = [200, 100]"
    and cids: "map (\<lambda>v. map cv_id (pv_comments v)) vs = [[], [15, 11]]"
    and ctimes: "map (\<lambda>v. map (\<lambda>c. createdAt (cv_doc c)) (pv_comments v)) vs = [[], [110, 120]]"
    by (auto simp: getAllPosts_sample)
  from vs ids times ord cids ctimes show ?thesis
    by (intro exI [of _ vs] conjI)
qed

lemma insort_key_map: "insort_key k (f x) (map f xs) = map f (insort_key (\<lambda>y. k (f y)) x xs)"
  by (induction xs) simp_all

lemma sort_key_map: "sort_key k (map f xs) = map f (sort_key (\<lambda>y. k (f y)) xs)"
  by (induction xs) (simp_all add: insort_key_map)

lemma hydrate_one:
  "fold (populate_comment s) [Popt PathAuthor [], Popt PathReplies [Popt PathAuthor []]]
     (load_comment i c) = hydrate s (Suc 0) (i, c)"
  by (simp add: load_comment_def find_comments_stored o_def)

lemma hydrate_two:
  "fold (populate_comment s) [Popt PathAuthor [], commentPopulation] (load_comment i c) =
     hydrate s 2 (i, c)"
proof -
  have "populate_comment s commentPopulation (populate_comment s (Popt PathAuthor []) (load_comment i c)) =
     hydrate s (Suc (Suc 0)) (i, c)"
    unfolding commentPopulation_def
    by (simp add: load_comment_def find_comments_stored o_def hydrate_one [simplified])
  then show ?thesis by (simp add: numeral_2_eq_2)
qed

lemma load_comment_sel [simp]:
  "cv_doc (load_comment i c) = c" "cv_id (load_comment i c) = i"
  by (simp_all add: load_comment_def)

lemma top_level_hydrated:
  "map (\<lambda>r. fold (populate_comment s) [Popt PathAuthor [], commentPopulation] r)
     (sort_key (\<lambda>c. createdAt (cv_doc c)) (find_comments s ids)) =
   map (hydrate s 2) (sort_key (\<lambda>ic. createdAt (snd ic)) (stored_comments s ids))"
proof -
  have "sort_key (\<lambda>c. createdAt (cv_doc c)) (find_comments s ids) =
      map (\<lambda>ic. load_comment (fst ic) (snd ic))
        (sort_key (\<lambda>ic. createdAt (snd ic)) (stored_comments s ids))"
    by (simp add: find_comments_stored sort_key_map)
  then show ?thesis
    by (simp only: map_map o_def hydrate_two prod.collapse)
qed

lemma populate_post_hydrated:
  "populate_post_comments s [Popt PathAuthor [], commentPopulation]
     (populate_post_author s (load_post ip)) = hydrate_post s 2 ip"
  by (simp add: populate_post_comments_def populate_post_author_def load_post_def
      hydrate_post_def top_level_hydrated [simplified])

text \<open>
  C2 (as amended). getAllPosts hydrates the discussion tree of every post to a fixed
  depth of three comment levels: the top-level comments, their replies and the replies
  of those replies are expanded, each with its author resolved; the \<open>replies\<close> of a
  comment of the third level are left as the stored ids, whatever the store holds
  below.
\<close>

theorem getAllPosts_three_levels:
  "getAllPosts s =
     Response 200 (PostList
       (map (hydrate_post s 2) (sort_key (\<lambda>ip. - createdAt (snd ip)) (post_coll s))))"
  by (simp add: getAllPosts_def populate_post_hydrated)

theorem getAllPosts_three_levels_witness:
  "getAllPosts sample_db = Response 200 (PostList
     [\<lparr>pv_id = 20,
       pv_doc = \<lparr>content = ''Clinic hours'', author = 2, authorType = Doctor, createdAt = 200,
          comments = []\<rparr>,
       pv_author = AuthorDoc sample_bob,
       pv_comments = []\<rparr>,
      \<lparr>pv_id = 10,
       pv_doc = \<lparr>content = ''Flu season'', author = 3, authorType = User, createdAt = 100,
          comments = [11, 15]\<rparr>,
       pv_author = AuthorDoc sample_ann,
       pv_comments =
         [hydrate sample_db 2 (15, mk_comment ''E'' 3 User 110 10 None []),
          hydrate sample_db 2 (11, mk_comment ''A'' 2 Doctor 120 10 None [12])]\<rparr>])"
proof -
  have ps: "post_coll sample_db =
      [(10, \<lparr>content = ''Flu season'', author = 3, authorType = User, createdAt = 100,
               comments = [11, 15]\<rparr>),
       (20, \<lparr>content = ''Clinic hours'', author = 2, authorType = Doctor, createdAt = 200,
               comments = []\<rparr>)]"
    by (simp add: sample_db_def)
  have cs: "stored_comments sample_db [11, 15] =
      [(11, mk_comment ''A'' 2 Doctor 120 10 None [12]),
       (15, mk_comment ''E'' 3 User 110 10 None [])]"
    by (simp add: stored_comments_def List.map_filter_simps sample_comments)
  have nil: "stored_comments sample_db [] = []"
    by (simp add: stored_comments_def List.map_filter_simps)
  show ?thesis
    using getAllPosts_three_levels [of sample_db]
    by (simp add: ps cs nil resolve_sample hydrate_post_def)
qed

text \<open>
  C2 as stated fails: the sample store holds the reply chain 11, 12, 13, 14 under post
  10, comment 14 is stored, and the response shows it as a bare id in the replies of 13.
\<close>

theorem getAllPosts_full_depth_counterexample:
  "comment_coll sample_db 13 = Some (mk_comment ''C'' 2 Doctor 140 10 (Some 12) [14]) \<and>
   comment_coll sample_db 14 = Some (mk_comment ''D'' 3 User 150 10 (Some 13) []) \<and>
   getAllPosts sample_db = Response 200 (PostList
     [\<lparr>pv_id = 20,
       pv_doc = \<lparr>content = ''Clinic hours'', author = 2, authorType = Doctor, createdAt = 200,
          comments = []\<rparr>,
       pv_author = AuthorDoc sample_bob,
       pv_comments = []\<rparr>,
      \<lparr>pv_id = 10,
       pv_doc = \<lparr>content = ''Flu season'', author = 3, authorType = User, createdAt = 100,
          comments = [11, 15]\<rparr>,
       pv_author = AuthorDoc sample_ann,
       pv_comments =
         [CDoc 15 (mk_comment ''E'' 3 User 110 10 None []) (AuthorDoc sample_ann) [],
          CDoc 11 (mk_comment ''A'' 2 Doctor 120 10 None [12]) (AuthorDoc sample_bob)
            [CDoc 12 (mk_comment ''B'' 3 User 130 10 (Some 11) [13]) (AuthorDoc sample_ann)
               [CDoc 13 (mk_comment ''C'' 2 Doctor 140 10 (Some 12) [14]) (AuthorDoc sample_bob)
                  [CRef 14]]]]\<rparr>])"
  by (simp add: sample_comments getAllPosts_sample)

lemma push_comments_absent: "map_of ps i = None \<Longrightarrow> push_comments i x ps = ps"
  by (induction ps) (auto split: if_splits)

lemma push_comments_split:
  "map_of ps i = Some p \<Longrightarrow>
   \<exists>pre suf. ps = pre @ (i, p) # suf \<and> i \<notin> fst ` set pre \<and>
     push_comments i x ps = pre @ (i, p\<lparr>comments := comments p @ [x]\<rparr>) # suf"
proof (induction ps)
  case Nil
  then show ?case by simp
next
  case (Cons a ps)
  obtain j q where a: "a = (j, q)" by (cases a)
  show ?case
  proof (cases "j = i")
    case True
    with Cons.prems a have "q = p" by simp
    with True a have "a # ps = [] @ (i, p) # ps \<and> i \<notin> fst ` set [] \<and>
      push_comments i x (a # ps) = [] @ (i, p\<lparr>comments := comments p @ [x]\<rparr>) # ps"
      by simp
    then show ?thesis by blast
  next
    case False
    with Cons.prems a have "map_of ps i = Some p" by simp
    from Cons.IH [OF this] obtain pre suf where
      ps: "ps = pre @ (i, p) # suf" and pre: "i \<notin> fst ` set pre" and
      push: "push_comments i x ps = pre @ (i, p\<lparr>comments := comments p @ [x]\<rparr>) # suf"
      by blast
    from False a ps pre push have "a # ps = (a # pre) @ (i, p) # suf \<and> i \<notin> fst ` set (a # pre) \<and>
      push_comments i x (a # ps) = (a # pre) @ (i, p\<lparr>comments := comments p @ [x]\<rparr>) # suf"
      by simp
    then show ?thesis by blast
  qed
qed

lemma createComment_created:
  assumes "req_content req = Some c" and "c \<noteq> []" and "Comment_findById (new_id e) s = None"
  shows "createComment e req s =
    (let s1 = s\<lparr>comment_coll := (comment_coll s)(new_id e \<mapsto> new_comment e req c)\<rparr>;
         s2 = (case req_parentCommentId req of
                 Some parent \<Rightarrow> Comment_findByIdAndUpdate_push_replies parent (new_id e) s1
               | None \<Rightarrow> Post_findByIdAndUpdate_push_comments (req_postId req) (new_id e) s1)
     in (Response 201 (CommentDoc
           (map_option (\<lambda>c. populate_comment s2 (Popt PathAuthor []) (load_comment (new_id e) c))
              (comment_coll s2 (new_id e)))), s2))"
  using assms
  by (simp add: createComment_def Comment_create_def kind_of_tag_role new_comment_def Let_def
      Comment_findById_def)

lemma createComment_answer:
  assumes "req_content req = Some c" and "c \<noteq> []" and "Comment_findById (new_id e) s = None"
  shows "\<exists>doc. fst (createComment e req s) = Response 201 (CommentDoc doc)"
  by (simp add: createComment_created [OF assms] Let_def)

lemma createComment_reply_effect:
  assumes content: "req_content req = Some c" "c \<noteq> []"
    and free: "Comment_findById (new_id e) s = None"
    and parent: "req_parentCommentId req = Some parent"
  shows "post_coll (snd (createComment e req s)) = post_coll s"
    and "comment_coll (snd (createComment e req s)) i =
           (if i = parent
            then map_option (\<lambda>pc. pc\<lparr>replies := replies pc @ [new_id e]\<rparr>)
                   (((comment_coll s)(new_id e \<mapsto> new_comment e req c)) parent)
            else ((comment_coll s)(new_id e \<mapsto> new_comment e req c)) i)"
proof -
  have s': "snd (createComment e req s) =
      Comment_findByIdAndUpdate_push_replies parent (new_id e)
        (s\<lparr>comment_coll := (comment_coll s)(new_id e \<mapsto> new_comment e req c)\<rparr>)"
    by (simp add: createComment_created [OF content free] parent Let_def)
  show "post_coll (snd (createComment e req s)) = post_coll s"
    by (simp add: s' Comment_findByIdAndUpdate_push_replies_def split: option.split)
  show "comment_coll (snd (createComment e req s)) i =
           (if i = parent
            then map_option (\<lambda>pc. pc\<lparr>replies := replies pc @ [new_id e]\<rparr>)
                   (((comment_coll s)(new_id e \<mapsto> new_comment e req c)) parent)
            else ((comment_coll s)(new_id e \<mapsto> new_comment e req c)) i)"
    by (simp add: s' Comment_findByIdAndUpdate_push_replies_def split: option.split)
qed

lemma createComment_toplevel_effect:
  assumes content: "req_content req = Some c" "c \<noteq> []"
    and free: "Comment_findById (new_id e) s = None"
    and toplevel: "req_parentCommentId req = None"
  shows "comment_coll (snd (createComment e req s)) =
           (comment_coll s)(new_id e \<mapsto> new_comment e req c)"
    and "Post_findById (req_postId req) s = None \<Longrightarrow>
           post_coll (snd (createComment e req s)) = post_coll s"
    and "Post_findById (req_postId req) s = Some p \<Longrightarrow>
           \<exists>pre suf.
             post_coll s = pre @ (req_postId req, p) # suf \<and>
             req_postId req \<notin> fst ` set pre \<and>
             post_coll (snd (createComment e req s)) =
               pre @ (req_postId req, p\<lparr>comments := comments p @ [new_id e]\<rparr>) # suf"
proof -
  have s': "snd (createComment e req s) =
      s\<lparr>comment_coll := (comment_coll s)(new_id e \<mapsto> new_comment e req c),
        post_coll := push_comments (req_postId req) (new_id e) (post_coll s)\<rparr>"
    by (simp add: createComment_created [OF content free] toplevel Let_def
        Post_findByIdAndUpdate_push_comments_def)
  show "comment_coll (snd (createComment e req s)) =
           (comment_coll s)(new_id e \<mapsto> new_comment e req c)"
    by (simp add: s')
  show "post_coll (snd (createComment e req s)) = post_coll s"
    if "Post_findById (req_postId req) s = None"
    using that by (simp add: s' Post_findById_def push_comments_absent)
  show "\<exists>pre suf.
             post_coll s = pre @ (req_postId req, p) # suf \<and>
             req_postId req \<notin> fst ` set pre \<and>
             post_coll (snd (createComment e req s)) =
               pre @ (req_postId req, p\<lparr>comments := comments p @ [new_id e]\<rparr>) # suf"
    if "Post_findById (req_postId req) s = Some p"
  proof -
    from that have "map_of (post_coll s) (req_postId req) = Some p"
      by (simp add: Post_findById_def)
    from push_comments_split [OF this, of "new_id e"] show ?thesis
      by (simp add: s')
  qed
qed

text \<open>
  C1 (as amended). A createComment with a non-empty content, the generated id not being
  taken, answers 201, stores the new Comment and then makes exactly one linkage update.
  With a \<open>parentCommentId\<close>, no post is changed, and the comment with that id, if there is
  one once the new Comment is stored, gets the new id appended to its \<open>replies\<close>; every
  other comment is as it was. Without one, no \<open>replies\<close> array is changed, and the post
  with the id \<open>postId\<close>, if there is one, gets the new id appended to its \<open>comments\<close>;
  every other post is as it was. So never both arrays are updated; and when the
  document the update names does not exist, the update does nothing and neither is.
\<close>

theorem createComment_links_once:
  assumes content: "req_content req = Some c" "c \<noteq> []"
    and free: "Comment_findById (new_id e) s = None"
  shows "(\<exists>doc. fst (createComment e req s) = Response 201 (CommentDoc doc)) \<and>
         (case req_parentCommentId req of
            Some parent \<Rightarrow>
              post_coll (snd (createComment e req s)) = post_coll s \<and>
              (\<forall>i. comment_coll (snd (createComment e req s)) i =
                 (if i = parent
                  then map_option (\<lambda>pc. pc\<lparr>replies := replies pc @ [new_id e]\<rparr>)
                         (((comment_coll s)(new_id e \<mapsto> new_comment e req c)) parent)
                  else ((comment_coll s)(new_id e \<mapsto> new_comment e req c)) i))
          | None \<Rightarrow>
              comment_coll (snd (createComment e req s)) =
                (comment_coll s)(new_id e \<mapsto> new_comment e req c) \<and>
              (case Post_findById (req_postId req) s of
                 None \<Rightarrow> post_coll (snd (createComment e req s)) = post_coll s
               | Some p \<Rightarrow>
                   (\<exists>pre suf.
                      post_coll s = pre @ (req_postId req, p) # suf \<and>
                      req_postId req \<notin> fst ` set pre \<and>
                      post_coll (snd (createComment e req s)) =
                        pre @ (req_postId req, p\<lparr>comments := comments p @ [new_id e]\<rparr>) # suf)))"
proof -
  note answer = createComment_answer [OF content free]
  show ?thesis
  proof (cases "req_parentCommentId req")
    case None
    note top = createComment_toplevel_effect [OF content free None]
    show ?thesis
    proof (cases "Post_findById (req_postId req) s")
      case absent: None
      with answer None top(1) top(2) show ?thesis by simp
    next
      case (Some p)
      with answer None top(1) top(3) [OF Some] show ?thesis by simp
    qed
  next
    case (Some parent)
    note reply = createComment_reply_effect [OF content free Some]
    from answer Some reply show ?thesis by simp
  qed
qed

lemma sample_free: "Comment_findById 21 sample_db = None"
  by (simp add: Comment_findById_def sample_db_def)

theorem createComment_links_once_witness:
  "req_content (sample_req 10 (Some ''Hi'') (Some 11)) = Some ''Hi'' \<and>
   Comment_findById 21 sample_db = None \<and>
   post_coll (snd (createComment \<lparr>new_id = 21, now = 300\<rparr> (sample_req 10 (Some ''Hi'') (Some 11)) sample_db)) =
     post_coll sample_db \<and>
   comment_coll (snd (createComment \<lparr>new_id = 21, now = 300\<rparr> (sample_req 10 (Some ''Hi'') (Some 11)) sample_db)) 11 =
     Some (mk_comment ''A'' 2 Doctor 120 10 None [12, 21]) \<and>
   comment_coll (snd (createComment \<lparr>new_id = 21, now = 300\<rparr> (sample_req 10 (Some ''Hi'') (Some 11)) sample_db)) 21 =
     Some (mk_comment ''Hi'' 3 User 300 10 (Some 11) []) \<and>
   comment_coll (snd (createComment \<lparr>new_id = 21, now = 300\<rparr> (sample_req 10 (Some ''Hi'') None) sample_db)) =
     (comment_coll sample_db)(21 \<mapsto> mk_comment ''Hi'' 3 User 300 10 None []) \<and>
   Post_findById 10 (snd (createComment \<lparr>new_id = 21, now = 300\<rparr> (sample_req 10 (Some ''Hi'') None) sample_db)) =
     Some \<lparr>content = ''Flu season'', author = 3, authorType = User, createdAt = 100,
            comments = [11, 15, 21]\<rparr>"
proof -
  let ?e = "\<lparr>new_id = 21, now = 300\<rparr>"
  have c1: "req_content (sample_req 10 (Some ''Hi'') (Some 11)) = Some ''Hi''"
    and c2: "req_content (sample_req 10 (Some ''Hi'') None) = Some ''Hi''"
    by (simp_all add: sample_req_def)
  have ne: "''Hi'' \<noteq> []" by simp
  have free: "Comment_findById (new_id ?e) sample_db = None"
    by (simp add: sample_free)
  have p10: "Post_findById 10 sample_db =
      Some \<lparr>content = ''Flu season'', author = 3, authorType = User, createdAt = 100,
            comments = [11, 15]\<rparr>"
    by (simp add: Post_findById_def sample_db_def)
  note reply = createComment_links_once [OF c1 ne free]
  note toplevel = createComment_links_once [OF c2 ne free]
  have a: "post_coll (snd (createComment ?e (sample_req 10 (Some ''Hi'') (Some 11)) sample_db)) =
     post_coll sample_db"
    and b: "comment_coll (snd (createComment ?e (sample_req 10 (Some ''Hi'') (Some 11)) sample_db)) 11 =
     Some (mk_comment ''A'' 2 Doctor 120 10 None [12, 21])"
    and c: "comment_coll (snd (createComment ?e (sample_req 10 (Some ''Hi'') (Some 11)) sample_db)) 21 =
     Some (mk_comment ''Hi'' 3 User 300 10 (Some 11) [])"
    using reply
    by (simp_all add: sample_req_def sample_comments new_comment_def mk_comment_def)
  have d: "comment_coll (snd (createComment ?e (sample_req 10 (Some ''Hi'') None) sample_db)) =
     (comment_coll sample_db)(21 \<mapsto> mk_comment ''Hi'' 3 User 300 10 None [])"
    using toplevel
    by (simp add: sample_req_def new_comment_def mk_comment_def)
  from toplevel p10 obtain pre suf where
    "post_coll (snd (createComment ?e (sample_req 10 (Some ''Hi'') None) sample_db)) =
       pre @ (10, \<lparr>content = ''Flu season'', author = 3, authorType = User, createdAt = 100,
            comments = [11, 15, 21]\<rparr>) # suf" and pre: "10 \<notin> fst ` set pre"
    by (auto simp: sample_req_def)
  moreover from pre have "map_of pre 10 = None"
    by (simp add: map_of_eq_None_iff)
  ultimately have f: "Post_findById 10 (snd (createComment ?e (sample_req 10 (Some ''Hi'') None) sample_db)) =
     Some \<lparr>content = ''Flu season'', author = 3, authorType = User, createdAt = 100,
            comments = [11, 15, 21]\<rparr>"
    by (simp add: Post_findById_def map_add_def)
  from c1 sample_free a b c d f show ?thesis by (intro conjI)
qed

text \<open>
  C1 as stated fails: a reply to the comment id 99, which the sample store does not
  hold, is answered 201, and the store that results differs from the sample store only
  in the new Comment, whose \<open>replies\<close> are empty: no \<open>comments\<close> array and no \<open>replies\<close>
  array has got the new id.
\<close>

theorem createComment_dangling_parent_counterexample:
  "req_content (sample_req 10 (Some ''Hi'') (Some 99)) = Some ''Hi'' \<and>
   req_parentCommentId (sample_req 10 (Some ''Hi'') (Some 99)) = Some 99 \<and>
   comment_coll sample_db 99 = None \<and>
   createComment \<lparr>new_id = 21, now = 300\<rparr> (sample_req 10 (Some ''Hi'') (Some 99)) sample_db =
     (Response 201 (CommentDoc (Some
        (CDoc 21 (mk_comment ''Hi'' 3 User 300 10 (Some 99) []) (AuthorDoc sample_ann) []))),
      sample_db\<lparr>comment_coll :=
        (comment_coll sample_db)(21 \<mapsto> mk_comment ''Hi'' 3 User 300 10 (Some 99) [])\<rparr>)"
proof -
  have "comment_coll sample_db 99 = None" "comment_coll sample_db 21 = None"
    by (simp_all add: sample_db_def)
  then show ?thesis
    by (simp add: createComment_def sample_req_def Comment_create_def capitalizeRole_user
        kind_of_tag_def Comment_findById_def Comment_findByIdAndUpdate_push_replies_def
        load_comment_def mk_comment_def resolve_sample Let_def)
qed

lemma stored_comments_mem:
  "(i, c) \<in> set (stored_comments s ids) \<longleftrightarrow> i \<in> set ids \<and> comment_coll s i = Some c"
  by (induction ids) (auto simp: stored_comments_def List.map_filter_simps split: option.splits)

lemma hydrate_ids_in_tree:
  "in_tree s i \<Longrightarrow> comment_coll s i = Some c \<Longrightarrow> x \<in> cview_ids (hydrate s n (i, c)) \<Longrightarrow> in_tree s x"
proof (induction n arbitrary: i c)
  case 0
  then show ?case by (auto intro: in_tree.reply)
next
  case (Suc n)
  from Suc.prems(3) consider "x = i"
    | j d where "(j, d) \<in> set (stored_comments s (replies c))" "x \<in> cview_ids (hydrate s n (j, d))"
    by auto
  then show ?case
  proof cases
    case 1
    with Suc.prems(1) show ?thesis by simp
  next
    case 2
    then have j: "j \<in> set (replies c)" and d: "comment_coll s j = Some d"
      by (simp_all add: stored_comments_mem)
    from Suc.prems(1,2) j have "in_tree s j" by (rule in_tree.reply)
    from Suc.IH [OF this d 2(2)] show ?thesis .
  qed
qed

lemma listed_ids_in_tree: "x \<in> listed_ids (getAllPosts s) \<Longrightarrow> in_tree s x"
proof -
  assume "x \<in> listed_ids (getAllPosts s)"
  then obtain ip i c where ip: "ip \<in> set (post_coll s)"
    and ic: "(i, c) \<in> set (stored_comments s (remdups (comments (snd ip))))"
    and x: "x \<in> cview_ids (hydrate s 2 (i, c))"
    by (auto simp: getAllPosts_def populate_post_hydrated hydrate_post_def)
  from ic have i: "i \<in> set (comments (snd ip))" and c: "comment_coll s i = Some c"
    by (simp_all add: stored_comments_mem)
  from ip i have "in_tree s i" by (rule in_tree.top)
  from hydrate_ids_in_tree [OF this c x] show ?thesis .
qed

lemma unused_not_in_tree:
  assumes "unused s x" and that: "replies c = []"
  shows "\<not> in_tree (s\<lparr>comment_coll := (comment_coll s)(x \<mapsto> c)\<rparr>) x"
proof
  let ?s = "s\<lparr>comment_coll := (comment_coll s)(x \<mapsto> c)\<rparr>"
  assume "in_tree ?s x"
  then have "\<exists>y. y = x \<and> in_tree ?s y" by simp
  then obtain y where "in_tree ?s y" "y = x" by blast
  then show False
  proof (induction rule: in_tree.induct)
    case (top ip y)
    with assms show ?case by (auto simp: unused_def)
  next
    case (reply j d y)
    show ?case
    proof (cases "j = x")
      case True
      with reply that show ?thesis by simp
    next
      case False
      with reply have "comment_coll s j = Some d" by simp
      with assms reply show ?thesis by (auto simp: unused_def)
    qed
  qed
qed

text \<open>
  C5. A createComment with a non-empty content whose linkage target does not exist (the
  parent comment when a \<open>parentCommentId\<close> is given, the post otherwise) does not fail.
  The generated id being unused in the store, it answers 201 with the new comment, its
  author resolved; the store differs only in the new Comment document; and the new
  comment is an orphan: its id is in the tree of no post, and no listing of the posts
  shows it.
\<close>

theorem createComment_dangling_orphan:
  assumes content: "req_content req = Some c" "c \<noteq> []"
    and fresh: "unused s (new_id e)"
    and self: "req_parentCommentId req \<noteq> Some (new_id e)"
    and dangling: "case req_parentCommentId req of
                     None \<Rightarrow> Post_findById (req_postId req) s = None
                   | Some parent \<Rightarrow> Comment_findById parent s = None"
  shows "createComment e req s =
           (Response 201 (CommentDoc (Some
              (CDoc (new_id e) (new_comment e req c)
                 (AuthorDoc (resolve_author s (role_kind (req_user_role req)) (req_user_id req)))
                 []))),
            s\<lparr>comment_coll := (comment_coll s)(new_id e \<mapsto> new_comment e req c)\<rparr>) \<and>
         \<not> in_tree (snd (createComment e req s)) (new_id e) \<and>
         new_id e \<notin> listed_ids (getAllPosts (snd (createComment e req s)))"
proof -
  let ?s1 = "s\<lparr>comment_coll := (comment_coll s)(new_id e \<mapsto> new_comment e req c)\<rparr>"
  from fresh have free: "Comment_findById (new_id e) s = None"
    by (simp add: unused_def Comment_findById_def)
  have link: "(case req_parentCommentId req of
                 Some parent \<Rightarrow> Comment_findByIdAndUpdate_push_replies parent (new_id e) ?s1
               | None \<Rightarrow> Post_findByIdAndUpdate_push_comments (req_postId req) (new_id e) ?s1) = ?s1"
  proof (cases "req_parentCommentId req")
    case None
    with dangling have "map_of (post_coll s) (req_postId req) = None"
      by (simp add: Post_findById_def)
    then show ?thesis
      by (simp add: None Post_findByIdAndUpdate_push_comments_def push_comments_absent)
  next
    case (Some parent)
    with dangling self have "comment_coll s parent = None" "parent \<noteq> new_id e"
      by (simp_all add: Comment_findById_def)
    then show ?thesis
      by (simp add: Some Comment_findByIdAndUpdate_push_replies_def)
  qed
  have eq: "createComment e req s =
           (Response 201 (CommentDoc (Some
              (CDoc (new_id e) (new_comment e req c)
                 (AuthorDoc (resolve_author s (role_kind (req_user_role req)) (req_user_id req)))
                 []))), ?s1)"
  proof -
    have "createComment e req s =
        (Response 201 (CommentDoc
           (map_option (\<lambda>c. populate_comment ?s1 (Popt PathAuthor []) (load_comment (new_id e) c))
              (comment_coll ?s1 (new_id e)))), ?s1)"
      by (simp only: createComment_created [OF content free] Let_def link)
    then show ?thesis
      by (simp add: load_comment_def new_comment_def)
  qed
  have "replies (new_comment e req c) = []"
    by (simp add: new_comment_def)
  with fresh have orphan: "\<not> in_tree ?s1 (new_id e)"
    by (rule unused_not_in_tree)
  then have "new_id e \<notin> listed_ids (getAllPosts ?s1)"
    using listed_ids_in_tree by blast
  with eq orphan show ?thesis by simp
qed

lemma sample_unused: "unused sample_db 21"
  by (auto simp: unused_def sample_db_def mk_comment_def split: if_splits)

theorem createComment_dangling_orphan_witness:
  "unused sample_db 21 \<and>
   Post_findById 77 sample_db = None \<and>
   createComment \<lparr>new_id = 21, now = 300\<rparr> (sample_req 77 (Some ''Hi'') None) sample_db =
     (Response 201 (CommentDoc (Some
        (CDoc 21 (mk_comment ''Hi'' 3 User 300 77 None []) (AuthorDoc sample_ann) []))),
      sample_db\<lparr>comment_coll :=
        (comment_coll sample_db)(21 \<mapsto> mk_comment ''Hi'' 3 User 300 77 None [])\<rparr>) \<and>
   \<not> in_tree (snd (createComment \<lparr>new_id = 21, now = 300\<rparr>
        (sample_req 77 (Some ''Hi'') None) sample_db)) 21 \<and>
   21 \<notin> listed_ids (getAllPosts (snd (createComment \<lparr>new_id = 21, now = 300\<rparr>
        (sample_req 77 (Some ''Hi'') None) sample_db)))"
proof -
  let ?e = "\<lparr>new_id = 21, now = 300\<rparr>"
  let ?r = "sample_req 77 (Some ''Hi'') None"
  have c: "req_content ?r = Some ''Hi''" and ne: "''Hi'' \<noteq> []"
    by (simp_all add: sample_req_def)
  have fresh: "unused sample_db (new_id ?e)"
    by (simp add: sample_unused)
  have self: "req_parentCommentId ?r \<noteq> Some (new_id ?e)"
    by (simp add: sample_req_def)
  have p77: "Post_findById 77 sample_db = None"
    by (simp add: Post_findById_def sample_db_def)
  then have dangling: "case req_parentCommentId ?r of
                     None \<Rightarrow> Post_findById (req_postId ?r) sample_db = None
                   | Some parent \<Rightarrow> Comment_findById parent sample_db = None"
    by (simp add: sample_req_def)
  have nc: "new_comment ?e ?r ''Hi'' = mk_comment ''Hi'' 3 User 300 77 None []"
    by (simp add: new_comment_def sample_req_def mk_comment_def)
  have a: "resolve_author sample_db (role_kind (req_user_role ?r)) (req_user_id ?r) = sample_ann"
    by (simp add: sample_req_def resolve_sample)
  note orphaned = createComment_dangling_orphan [OF c ne fresh self dangling]
  from orphaned [THEN conjunct1] have eq: "createComment ?e ?r sample_db =
     (Response 201 (CommentDoc (Some
        (CDoc 21 (mk_comment ''Hi'' 3 User 300 77 None []) (AuthorDoc sample_ann) []))),
      sample_db\<lparr>comment_coll :=
        (comment_coll sample_db)(21 \<mapsto> mk_comment ''Hi'' 3 User 300 77 None [])\<rparr>)"
    by (simp add: nc a)
  from orphaned [THEN conjunct2] have orphan: "\<not> in_tree (snd (createComment ?e ?r sample_db)) 21"
    and unlisted: "21 \<notin> listed_ids (getAllPosts (snd (createComment ?e ?r sample_db)))"
    by simp_all
  from sample_unused p77 eq orphan unlisted show ?thesis
    by (intro conjI)
qed

lemma createComment_cases:
  "snd (createComment e req s) = s \<or>
   (\<exists>c. req_content req = Some c \<and> c \<noteq> [] \<and> Comment_findById (new_id e) s = None)"
  by (auto simp: createComment_def Comment_create_def kind_of_tag_role Let_def
      split: option.splits)

lemma createPost_cases:
  "snd (createPost e req s) = s \<or>
   (\<exists>p. snd (createPost e req s) = s\<lparr>post_coll := post_coll s @ [(new_id e, p)]\<rparr>)"
  by (auto simp: createPost_def Post_create_def kind_of_tag_role Let_def
      split: option.splits)

lemma posts_kept_refl: "posts_kept s s"
  by (simp add: posts_kept_def)

lemma comments_kept_refl: "comments_kept s s"
  by (simp add: comments_kept_def)

lemma forum_frame_cases:
  "(posts_kept s (snd (run op s)) \<and> comments_kept s (snd (run op s))) \<or>
   (one_post_pushed s (snd (run op s)) \<and> comments_kept s (snd (run op s))) \<or>
   (posts_kept s (snd (run op s)) \<and> one_comment_pushed s (snd (run op s)))"
proof (cases op)
  case ListPosts
  then show ?thesis by (simp add: posts_kept_refl comments_kept_refl)
next
  case (CreatePost e req)
  from createPost_cases [of e req s] show ?thesis
  proof
    assume "snd (createPost e req s) = s"
    with CreatePost show ?thesis by (simp add: posts_kept_refl comments_kept_refl)
  next
    assume "\<exists>p. snd (createPost e req s) = s\<lparr>post_coll := post_coll s @ [(new_id e, p)]\<rparr>"
    with CreatePost show ?thesis by (auto simp: posts_kept_def comments_kept_def)
  qed
next
  case (CreateComment e req)
  from createComment_cases [of e req s] show ?thesis
  proof
    assume "snd (createComment e req s) = s"
    with CreateComment show ?thesis by (simp add: posts_kept_refl comments_kept_refl)
  next
    assume "\<exists>c. req_content req = Some c \<and> c \<noteq> [] \<and> Comment_findById (new_id e) s = None"
    then obtain c where content: "req_content req = Some c" "c \<noteq> []"
      and free: "Comment_findById (new_id e) s = None" by blast
    let ?C1 = "(comment_coll s)(new_id e \<mapsto> new_comment e req c)"
    let ?s' = "snd (createComment e req s)"
    from free have new: "comment_coll s (new_id e) = None"
      by (simp add: Comment_findById_def)
    show ?thesis
    proof (cases "req_parentCommentId req")
      case None
      note top = createComment_toplevel_effect [OF content free None]
      from top(1) have cs: "comment_coll ?s' = ?C1" .
      with new have ck: "comments_kept s ?s'" by (auto simp: comments_kept_def)
      show ?thesis
      proof (cases "Post_findById (req_postId req) s")
        case absent: None
        from top(2) [OF absent] have "post_coll ?s' = post_coll s" .
        then have "posts_kept s ?s'" by (simp add: posts_kept_def)
        with ck CreateComment show ?thesis by simp
      next
        case (Some p)
        from top(3) [OF Some] obtain pre suf where
          "post_coll s = pre @ (req_postId req, p) # suf" and
          "post_coll ?s' = pre @ (req_postId req, p\<lparr>comments := comments p @ [new_id e]\<rparr>) # suf"
          by blast
        then have "one_post_pushed s ?s'"
          unfolding one_post_pushed_def
          by (intro exI [of _ pre] exI [of _ "req_postId req"] exI [of _ p] exI [of _ suf]
              exI [of _ "new_id e"] conjI)
        with ck CreateComment show ?thesis by simp
      qed
    next
      case (Some parent)
      note reply = createComment_reply_effect [OF content free Some]
      from reply(1) have ps: "post_coll ?s' = post_coll s" .
      note cs = reply(2)
      from ps have pk: "posts_kept s ?s'" by (simp add: posts_kept_def)
      show ?thesis
      proof (cases "comment_coll s parent")
        case cNone: None
        have "comments_kept s ?s'"
          unfolding comments_kept_def
        proof (intro allI impI)
          fix i d assume d: "comment_coll s i = Some d"
          with cNone new have "i \<noteq> parent" "i \<noteq> new_id e" by auto
          with d show "comment_coll ?s' i = Some d" by (simp add: cs)
        qed
        with pk CreateComment show ?thesis by simp
      next
        case (Some pc)
        with new have pn: "parent \<noteq> new_id e" by auto
        have "one_comment_pushed s ?s'"
          unfolding one_comment_pushed_def
        proof (intro exI conjI allI impI)
          show "comment_coll s parent = Some pc" by (rule Some)
          show "comment_coll ?s' parent = Some (pc\<lparr>replies := replies pc @ [new_id e]\<rparr>)"
            using pn Some by (simp add: cs)
        next
          fix i d assume "i \<noteq> parent" and d: "comment_coll s i = Some d"
          moreover from d new have "i \<noteq> new_id e" by auto
          ultimately show "comment_coll ?s' i = Some d" by (simp add: cs)
        qed
        with pk CreateComment show ?thesis by simp
      qed
    qed
  qed
qed

lemma posts_kept_grown:
  assumes "posts_kept s s'" and "k < length (post_coll s)"
  shows "post_grown (post_coll s ! k) (post_coll s' ! k)"
  using assms by (auto simp: posts_kept_def nth_append post_grown_def)

lemma one_post_pushed_grown:
  assumes "one_post_pushed s s'" and "k < length (post_coll s)"
  shows "post_grown (post_coll s ! k) (post_coll s' ! k)"
proof -
  from assms(1) obtain pre i p suf x where
    s: "post_coll s = pre @ (i, p) # suf" and
    s': "post_coll s' = pre @ (i, p\<lparr>comments := comments p @ [x]\<rparr>) # suf"
    unfolding one_post_pushed_def by blast
  show ?thesis
  proof (cases "k = length pre")
    case True
    then have "post_coll s ! k = (i, p)"
      and "post_coll s' ! k = (i, p\<lparr>comments := comments p @ [x]\<rparr>)"
      by (simp_all add: s s')
    then show ?thesis
      unfolding post_grown_def by (intro disjI2 exI [of _ x]) simp
  next
    case False
    then have "post_coll s' ! k = post_coll s ! k"
      by (simp add: s s' nth_append nth_Cons')
    then show ?thesis by (simp add: post_grown_def)
  qed
qed

lemma comments_kept_grown:
  assumes "comments_kept s s'" and "comment_coll s i = Some c"
  shows "\<exists>c'. comment_coll s' i = Some c' \<and> comment_grown c c'"
  using assms by (simp add: comments_kept_def comment_grown_def)

lemma one_comment_pushed_grown:
  assumes "one_comment_pushed s s'" and "comment_coll s i = Some c"
  shows "\<exists>c'. comment_coll s' i = Some c' \<and> comment_grown c c'"
proof -
  from assms(1) obtain j d x where
    j: "comment_coll s j = Some d" "comment_coll s' j = Some (d\<lparr>replies := replies d @ [x]\<rparr>)"
    and others: "\<And>i c'. i \<noteq> j \<Longrightarrow> comment_coll s i = Some c' \<Longrightarrow> comment_coll s' i = Some c'"
    unfolding one_comment_pushed_def by blast
  show ?thesis
  proof (cases "i = j")
    case True
    with j assms(2) have "comment_coll s' i = Some (c\<lparr>replies := replies c @ [x]\<rparr>)" by simp
    moreover have "comment_grown c (c\<lparr>replies := replies c @ [x]\<rparr>)"
      unfolding comment_grown_def by (intro disjI2 exI [of _ x]) simp
    ultimately show ?thesis by simp
  next
    case False
    from others [OF False assms(2)] show ?thesis by (simp add: comment_grown_def)
  qed
qed

lemma length_posts_kept: "posts_kept s s' \<Longrightarrow> length (post_coll s) \<le> length (post_coll s')"
  by (auto simp: posts_kept_def)

lemma length_one_post_pushed:
  "one_post_pushed s s' \<Longrightarrow> length (post_coll s) \<le> length (post_coll s')"
  by (auto simp: one_post_pushed_def)

text \<open>
  C8. No forum operation deletes a Post or a Comment, and what it changes of the
  documents there are is at most one array. After any of the three operations every
  post of the store is still there, at its place in the collection, and every comment
  under its id; each is as it was or has got one id appended to its \<open>comments\<close> or
  \<open>replies\<close>, all other fields as before; and at most one of them has: either every post
  and every comment is as it was, or every comment is and exactly one post has got one
  id appended to its \<open>comments\<close>, or every post is and exactly one comment has got one id
  appended to its \<open>replies\<close>. New documents only come after the posts that were there,
  or under an id no comment had.
\<close>

theorem forum_frame:
  "length (post_coll s) \<le> length (post_coll (snd (run op s))) \<and>
   (\<forall>k < length (post_coll s).
      post_grown (post_coll s ! k) (post_coll (snd (run op s)) ! k)) \<and>
   (\<forall>i c. comment_coll s i = Some c \<longrightarrow>
      (\<exists>c'. comment_coll (snd (run op s)) i = Some c' \<and> comment_grown c c')) \<and>
   ((posts_kept s (snd (run op s)) \<and> comments_kept s (snd (run op s))) \<or>
    (one_post_pushed s (snd (run op s)) \<and> comments_kept s (snd (run op s))) \<or>
    (posts_kept s (snd (run op s)) \<and> one_comment_pushed s (snd (run op s))))"
proof -
  let ?s' = "snd (run op s)"
  have cases: "(posts_kept s ?s' \<and> comments_kept s ?s') \<or>
    (one_post_pushed s ?s' \<and> comments_kept s ?s') \<or>
    (posts_kept s ?s' \<and> one_comment_pushed s ?s')"
    by (rule forum_frame_cases)
  then have posts: "posts_kept s ?s' \<or> one_post_pushed s ?s'"
    and comments: "comments_kept s ?s' \<or> one_comment_pushed s ?s'"
    by blast+
  from posts have len: "length (post_coll s) \<le> length (post_coll ?s')"
    using length_posts_kept length_one_post_pushed by blast
  from posts have pg: "\<forall>k < length (post_coll s). post_grown (post_coll s ! k) (post_coll ?s' ! k)"
    using posts_kept_grown one_post_pushed_grown by blast
  from comments have cg: "\<forall>i c. comment_coll s i = Some c \<longrightarrow>
      (\<exists>c'. comment_coll ?s' i = Some c' \<and> comment_grown c c')"
    using comments_kept_grown one_comment_pushed_grown by blast
  from len pg cg cases show ?thesis by (intro conjI)
qed

theorem forum_frame_witness:
  "comment_coll sample_db 11 = Some (mk_comment ''A'' 2 Doctor 120 10 None [12]) \<and>
   length (post_coll sample_db) \<le>
     length (post_coll
       (snd (run (CreateComment \<lparr>new_id = 21, now = 300\<rparr> (sample_req 10 (Some ''Hi'') (Some 11)))
          sample_db))) \<and>
   (\<exists>c'. comment_coll
        (snd (run (CreateComment \<lparr>new_id = 21, now = 300\<rparr> (sample_req 10 (Some ''Hi'') (Some 11)))
           sample_db)) 11 = Some c' \<and>
      comment_grown (mk_comment ''A'' 2 Doctor 120 10 None [12]) c') \<and>
   comment_coll
     (snd (run (CreateComment \<lparr>new_id = 21, now = 300\<rparr> (sample_req 10 (Some ''Hi'') (Some 11)))
        sample_db)) 11 = Some (mk_comment ''A'' 2 Doctor 120 10 None [12, 21]) \<and>
   post_coll
     (snd (run (CreateComment \<lparr>new_id = 21, now = 300\<rparr> (sample_req 10 (Some ''Hi'') (Some 11)))
        sample_db)) = post_coll sample_db"
proof -
  let ?e = "\<lparr>new_id = 21, now = 300\<rparr>"
  let ?r = "sample_req 10 (Some ''Hi'') (Some 11)"
  let ?s' = "snd (run (CreateComment ?e ?r) sample_db)"
  have c: "req_content ?r = Some ''Hi''" and ne: "''Hi'' \<noteq> []"
    by (simp_all add: sample_req_def)
  have free: "Comment_findById (new_id ?e) sample_db = None"
    by (simp add: sample_free)
  have par: "req_parentCommentId ?r = Some 11"
    by (simp add: sample_req_def)
  note eff = createComment_reply_effect [OF c ne free par]
  have a: "post_coll ?s' = post_coll sample_db"
    and b: "comment_coll ?s' 11 = Some (mk_comment ''A'' 2 Doctor 120 10 None [12, 21])"
    using eff
    by (simp_all add: sample_req_def sample_comments new_comment_def mk_comment_def)
  note frame = forum_frame [of sample_db "CreateComment ?e ?r"]
  from frame have len: "length (post_coll sample_db) \<le> length (post_coll ?s')"
    by (rule conjunct1)
  from frame have "\<forall>i c. comment_coll sample_db i = Some c \<longrightarrow>
      (\<exists>c'. comment_coll ?s' i = Some c' \<and> comment_grown c c')"
    by (elim conjE)
  with sample_comments(1) have grown: "\<exists>c'. comment_coll ?s' 11 = Some c' \<and>
      comment_grown (mk_comment ''A'' 2 Doctor 120 10 None [12]) c'"
    by blast
  from sample_comments(1) len grown b a show ?thesis by (intro conjI)
qed

lemma hydrate_leaf:
  "replies c = [] \<Longrightarrow>
   hydrate s n (i, c) = CDoc i c (AuthorDoc (resolve_author s (authorType c) (author c))) []"
  by (cases n) (simp_all add: stored_comments_def List.map_filter_simps)

lemma stored_comments_Nil [simp]: "stored_comments s [] = []"
  by (simp add: stored_comments_def List.map_filter_simps)

lemma stored_comments_single:
  "comment_coll s i = Some c \<Longrightarrow> stored_comments s [i] = [(i, c)]"
  by (simp add: stored_comments_def List.map_filter_simps)

lemma hydrate_top_ids:
  "cv_id ` set (map (hydrate s n) (sort_key k (stored_comments s ids))) \<subseteq> set ids"
proof -
  have "cv_id (hydrate s n ic) = fst ic" for ic by (cases n) simp_all
  then have "cv_id ` set (map (hydrate s n) (sort_key k (stored_comments s ids))) =
      fst ` set (stored_comments s ids)"
    by (simp add: image_image)
  also have "\<dots> \<subseteq> set ids" by (auto simp: stored_comments_mem)
  finally show ?thesis .
qed

text \<open>
  C6. The round trip of a reply. In a store with a post P, a top-level comment A is
  created on P and then a comment B with A's id as \<open>parentCommentId\<close>, both with
  non-empty content and with generated ids that are unused in the store and different.
  The listing of the posts then shows P, with A's id at the end of its \<open>comments\<close>;
  among P's top-level comments it shows A, expanded, with replies that are exactly B,
  expanded and without replies; and no top-level comment of P is B.
\<close>

theorem reply_round_trip:
  assumes post: "Post_findById pid s = Some p"
    and reqA: "req_postId reqA = pid" "req_parentCommentId reqA = None"
              "req_content reqA = Some cA" "cA \<noteq> []"
    and reqB: "req_parentCommentId reqB = Some (new_id eA)"
              "req_content reqB = Some cB" "cB \<noteq> []"
    and fresh: "unused s (new_id eA)" "unused s (new_id eB)" "new_id eA \<noteq> new_id eB"
    and sA: "sA = snd (createComment eA reqA s)"
    and sB: "sB = snd (createComment eB reqB sA)"
  shows "\<exists>vs. getAllPosts sB = Response 200 (PostList vs) \<and>
           (\<exists>v \<in> set vs.
              pv_id v = pid \<and>
              pv_doc v = p\<lparr>comments := comments p @ [new_id eA]\<rparr> \<and>
              CDoc (new_id eA) ((new_comment eA reqA cA)\<lparr>replies := [new_id eB]\<rparr>)
                (AuthorDoc (resolve_author s (role_kind (req_user_role reqA)) (req_user_id reqA)))
                [CDoc (new_id eB) (new_comment eB reqB cB)
                   (AuthorDoc (resolve_author s (role_kind (req_user_role reqB)) (req_user_id reqB)))
                   []]
                \<in> set (pv_comments v) \<and>
              (\<forall>w \<in> set (pv_comments v). cv_id w \<noteq> new_id eB))"
proof -
  let ?a = "new_id eA" and ?b = "new_id eB"
  let ?nA = "new_comment eA reqA cA" and ?nB = "new_comment eB reqB cB"
  let ?p' = "p\<lparr>comments := comments p @ [?a]\<rparr>"
  from fresh have freeA: "Comment_findById ?a s = None" and sa: "comment_coll s ?a = None"
    and sb: "comment_coll s ?b = None"
    by (simp_all add: unused_def Comment_findById_def)
  note effA = createComment_toplevel_effect [OF reqA(3,4) freeA reqA(2)]
  from effA(1) have csA: "comment_coll sA = (comment_coll s)(?a \<mapsto> ?nA)"
    unfolding sA .
  from post reqA(1) have "Post_findById (req_postId reqA) s = Some p" by simp
  from effA(3) [OF this] reqA(1) obtain pre suf where
    ps: "post_coll s = pre @ (pid, p) # suf" and
    psA: "post_coll sA = pre @ (pid, ?p') # suf"
    unfolding sA by auto
  from csA sb fresh(3) have freeB: "Comment_findById ?b sA = None"
    by (simp add: Comment_findById_def)
  note effB = createComment_reply_effect [OF reqB(2,3) freeB reqB(1)]
  from effB(1) have psB: "post_coll sB = post_coll sA"
    unfolding sB .
  have csB: "comment_coll sB i =
                 (if i = ?a
                  then map_option (\<lambda>pc. pc\<lparr>replies := replies pc @ [?b]\<rparr>)
                         (((comment_coll sA)(?b \<mapsto> ?nB)) ?a)
                  else ((comment_coll sA)(?b \<mapsto> ?nB)) i)" for i
    unfolding sB by (rule effB(2))
  have a: "comment_coll sB ?a = Some (?nA\<lparr>replies := [?b]\<rparr>)"
    using fresh(3) by (simp add: csB csA new_comment_def)
  have b: "comment_coll sB ?b = Some ?nB"
    using fresh(3) by (simp add: csB)
  have users: "resolve_author sB = resolve_author s"
  proof -
    have "user_coll sB = user_coll s \<and> doctor_coll sB = doctor_coll s"
      unfolding sB sA
      by (simp add: createComment_def Comment_create_def Let_def
          Comment_findByIdAndUpdate_push_replies_def Post_findByIdAndUpdate_push_comments_def
          split: option.split sum.split)
    then show ?thesis by (simp add: resolve_author_def fun_eq_iff split: author_kind.split)
  qed
  let ?view = "hydrate_post sB 2"
  let ?vs = "map ?view (sort_key (\<lambda>ip. - createdAt (snd ip)) (post_coll sB))"
  let ?v = "?view (pid, ?p')"
  have listing: "getAllPosts sB = Response 200 (PostList ?vs)"
    by (simp add: getAllPosts_def populate_post_hydrated)
  have "(pid, ?p') \<in> set (post_coll sB)"
    by (simp add: psB psA)
  then have "?v \<in> ?view ` set (post_coll sB)" by (rule imageI)
  then have mem: "?v \<in> set ?vs" by (simp only: set_map set_sort)
  have hB: "hydrate sB (Suc 0) (?b, ?nB) =
      CDoc ?b ?nB (AuthorDoc (resolve_author s (role_kind (req_user_role reqB)) (req_user_id reqB))) []"
    by (simp add: hydrate_leaf users new_comment_def)
  have hA: "hydrate sB 2 (?a, ?nA\<lparr>replies := [?b]\<rparr>) =
      CDoc ?a (?nA\<lparr>replies := [?b]\<rparr>)
        (AuthorDoc (resolve_author s (role_kind (req_user_role reqA)) (req_user_id reqA)))
        [CDoc ?b ?nB (AuthorDoc (resolve_author s (role_kind (req_user_role reqB)) (req_user_id reqB))) []]"
    by (simp add: numeral_2_eq_2 stored_comments_single [OF b] hB users new_comment_def)
  have "(?a, ?nA\<lparr>replies := [?b]\<rparr>) \<in> set (stored_comments sB (remdups (comments ?p')))"
    by (simp add: stored_comments_mem a)
  then have "hydrate sB 2 (?a, ?nA\<lparr>replies := [?b]\<rparr>) \<in> set (pv_comments ?v)"
    by (simp add: hydrate_post_def)
  then have inA: "CDoc ?a (?nA\<lparr>replies := [?b]\<rparr>)
        (AuthorDoc (resolve_author s (role_kind (req_user_role reqA)) (req_user_id reqA)))
        [CDoc ?b ?nB (AuthorDoc (resolve_author s (role_kind (req_user_role reqB)) (req_user_id reqB))) []]
      \<in> set (pv_comments ?v)"
    by (simp only: hA)
  have "(pid, p) \<in> set (post_coll s)" by (simp add: ps)
  with fresh(2) have "?b \<notin> set (comments p)" by (auto simp: unused_def)
  with fresh(3) have nb: "?b \<notin> set (remdups (comments ?p'))" by simp
  have pvc: "pv_comments ?v =
      map (hydrate sB 2)
        (sort_key (\<lambda>ic. createdAt (snd ic)) (stored_comments sB (remdups (comments ?p'))))"
    by (simp add: hydrate_post_def)
  have sub: "cv_id ` set (pv_comments ?v) \<subseteq> set (remdups (comments ?p'))"
    by (simp only: pvc hydrate_top_ids)
  have notB: "\<forall>w \<in> set (pv_comments ?v). cv_id w \<noteq> ?b"
  proof (intro ballI notI)
    fix w assume "w \<in> set (pv_comments ?v)" and "cv_id w = ?b"
    then have "?b \<in> cv_id ` set (pv_comments ?v)" by (intro image_eqI [of _ _ w]) simp_all
    with sub have "?b \<in> set (remdups (comments ?p'))" by (rule subsetD)
    with nb show False ..
  qed
  have idv: "pv_id ?v = pid" and docv: "pv_doc ?v = ?p'" by (simp_all add: hydrate_post_def)
  from mem idv docv inA notB have "\<exists>v \<in> set ?vs.
              pv_id v = pid \<and>
              pv_doc v = ?p' \<and>
              CDoc ?a (?nA\<lparr>replies := [?b]\<rparr>)
                (AuthorDoc (resolve_author s (role_kind (req_user_role reqA)) (req_user_id reqA)))
                [CDoc ?b ?nB
                   (AuthorDoc (resolve_author s (role_kind (req_user_role reqB)) (req_user_id reqB)))
                   []]
                \<in> set (pv_comments v) \<and>
              (\<forall>w \<in> set (pv_comments v). cv_id w \<noteq> ?b)"
    by (intro bexI [of _ ?v] conjI)
  with listing show ?thesis by (intro exI [of _ ?vs] conjI)
qed

lemma sample_unused22: "unused sample_db 22"
  by (auto simp: unused_def sample_db_def mk_comment_def split: if_splits)

theorem reply_round_trip_witness:
  "Post_findById 20 sample_db =
     Some \<lparr>content = ''Clinic hours'', author = 2, authorType = Doctor, createdAt = 200,
            comments = []\<rparr> \<and>
   unused sample_db 21 \<and> unused sample_db 22 \<and>
   (\<exists>vs. getAllPosts
           (snd (createComment \<lparr>new_id = 22, now = 310\<rparr> (sample_req 20 (Some ''Re'') (Some 21))
              (snd (createComment \<lparr>new_id = 21, now = 300\<rparr> (sample_req 20 (Some ''Hi'') None)
                 sample_db)))) = Response 200 (PostList vs) \<and>
      (\<exists>v \<in> set vs.
         pv_id v = 20 \<and>
         pv_doc v = \<lparr>content = ''Clinic hours'', author = 2, authorType = Doctor,
            createdAt = 200, comments = [21]\<rparr> \<and>
         CDoc 21 (mk_comment ''Hi'' 3 User 300 20 None [22]) (AuthorDoc sample_ann)
           [CDoc 22 (mk_comment ''Re'' 3 User 310 20 (Some 21) []) (AuthorDoc sample_ann) []]
           \<in> set (pv_comments v) \<and>
         (\<forall>w \<in> set (pv_comments v). cv_id w \<noteq> 22)))"
proof -
  let ?eA = "\<lparr>new_id = 21, now = 300\<rparr>" and ?eB = "\<lparr>new_id = 22, now = 310\<rparr>"
  let ?rA = "sample_req 20 (Some ''Hi'') None" and ?rB = "sample_req 20 (Some ''Re'') (Some 21)"
  let ?p = "\<lparr>content = ''Clinic hours'', author = 2, authorType = Doctor, createdAt = 200,
            comments = []\<rparr>"
  have post: "Post_findById 20 sample_db = Some ?p"
    by (simp add: Post_findById_def sample_db_def)
  have reqA: "req_postId ?rA = 20" "req_parentCommentId ?rA = None"
      "req_content ?rA = Some ''Hi''" "''Hi'' \<noteq> []"
    by (simp_all add: sample_req_def)
  have reqB: "req_parentCommentId ?rB = Some (new_id ?eA)"
      "req_content ?rB = Some ''Re''" "''Re'' \<noteq> []"
    by (simp_all add: sample_req_def)
  have fresh: "unused sample_db (new_id ?eA)" "unused sample_db (new_id ?eB)"
      "new_id ?eA \<noteq> new_id ?eB"
    by (simp_all add: sample_unused sample_unused22)
  have vals:
    "(new_comment ?eA ?rA ''Hi'')\<lparr>replies := [new_id ?eB]\<rparr> = mk_comment ''Hi'' 3 User 300 20 None [22]"
    "new_comment ?eB ?rB ''Re'' = mk_comment ''Re'' 3 User 310 20 (Some 21) []"
    "resolve_author sample_db (role_kind (req_user_role ?rA)) (req_user_id ?rA) = sample_ann"
    "resolve_author sample_db (role_kind (req_user_role ?rB)) (req_user_id ?rB) = sample_ann"
    "?p\<lparr>comments := comments ?p @ [new_id ?eA]\<rparr> =
       \<lparr>content = ''Clinic hours'', author = 2, authorType = Doctor, createdAt = 200,
        comments = [21]\<rparr>"
    "new_id ?eA = 21" "new_id ?eB = 22"
    "(new_comment ?eA ?rA ''Hi'')\<lparr>replies := [22]\<rparr> = mk_comment ''Hi'' 3 User 300 20 None [22]"
    "?p\<lparr>comments := comments ?p @ [21]\<rparr> =
       \<lparr>content = ''Clinic hours'', author = 2, authorType = Doctor, createdAt = 200,
        comments = [21]\<rparr>"
    by (simp_all add: new_comment_def mk_comment_def sample_req_def resolve_sample)
  note round = reply_round_trip [OF post reqA reqB fresh refl refl]
  from round have "\<exists>vs. getAllPosts
           (snd (createComment ?eB ?rB (snd (createComment ?eA ?rA sample_db)))) =
             Response 200 (PostList vs) \<and>
      (\<exists>v \<in> set vs.
         pv_id v = 20 \<and>
         pv_doc v = \<lparr>content = ''Clinic hours'', author = 2, authorType = Doctor,
            createdAt = 200, comments = [21]\<rparr> \<and>
         CDoc 21 (mk_comment ''Hi'' 3 User 300 20 None [22]) (AuthorDoc sample_ann)
           [CDoc 22 (mk_comment ''Re'' 3 User 310 20 (Some 21) []) (AuthorDoc sample_ann) []]
           \<in> set (pv_comments v) \<and>
         (\<forall>w \<in> set (pv_comments v). cv_id w \<noteq> 22))"
    by (simp only: vals)
  with post sample_unused sample_unused22 show ?thesis by (intro conjI)
qed

section \<open>Properties of doctorController.js\<close>

lemma assign_slots_dates: "map date (assign_slots d sl xs) = map date xs"
  by (induction xs) auto

lemma assign_slots_holds:
  "distinct (map date xs) \<Longrightarrow> e \<in> set (assign_slots d sl xs) \<Longrightarrow> date e = d \<Longrightarrow> slots e = sl"
proof (induction xs)
  case Nil
  then show ?case by simp
next
  case (Cons x xs)
  show ?case
  proof (cases "date x = d")
    case True
    with Cons.prems have "e = x\<lparr>slots := sl\<rparr> \<or> e \<in> set xs" by simp
    then show ?thesis
    proof
      assume "e = x\<lparr>slots := sl\<rparr>"
      then show ?thesis by simp
    next
      assume "e \<in> set xs"
      then have "date e \<in> date ` set xs" by (rule imageI)
      with Cons.prems True show ?thesis by simp
    qed
  next
    case False
    with Cons.prems have "e = x \<or> e \<in> set (assign_slots d sl xs)" by simp
    then show ?thesis
    proof
      assume "e = x"
      with False Cons.prems show ?thesis by simp
    next
      assume "e \<in> set (assign_slots d sl xs)"
      with Cons.IH Cons.prems show ?thesis by simp
    qed
  qed
qed

lemma assign_slots_others: "filter (\<lambda>e. date e \<noteq> d) (assign_slots d sl xs) = filter (\<lambda>e. date e \<noteq> d) xs"
  by (induction xs) auto

lemma find_date_None: "find (\<lambda>e. date e = d) xs = None \<longleftrightarrow> d \<notin> date ` set xs"
  by (auto simp: find_None_iff)

text \<open>
  C9. setAvailability keeps the dates of a doctor's availability entries unique. For a
  doctor whose entries have pairwise different dates, it answers 200 and changes only
  that doctor's \<open>availableSlots\<close>: the dates are still pairwise different, there is an
  entry for the given date and it holds exactly the given slots, the entries for all
  other dates are as before, and the entry was replaced in place when the date was
  there (the sequence of dates is the same) and appended otherwise.
\<close>

theorem setAvailability_unique_dates:
  assumes doc: "doctor_coll s (req_doctorId req) = Some d"
    and uniq: "distinct (map date (availableSlots d))"
  shows "\<exists>av. setAvailability req s =
           (Response 200 (DoctorUpdated ''Availability updated'' (d\<lparr>availableSlots := av\<rparr>)),
            s\<lparr>doctor_coll := (doctor_coll s)(req_doctorId req \<mapsto> d\<lparr>availableSlots := av\<rparr>)\<rparr>) \<and>
         distinct (map date av) \<and>
         (\<exists>e \<in> set av. date e = req_date req) \<and>
         (\<forall>e \<in> set av. date e = req_date req \<longrightarrow> slots e = req_slots req) \<and>
         filter (\<lambda>e. date e \<noteq> req_date req) av =
           filter (\<lambda>e. date e \<noteq> req_date req) (availableSlots d) \<and>
         (if req_date req \<in> date ` set (availableSlots d)
          then map date av = map date (availableSlots d)
          else av = availableSlots d @ [\<lparr>date = req_date req, slots = req_slots req\<rparr>])"
proof (cases "find (\<lambda>e. date e = req_date req) (availableSlots d)")
  case None
  then have absent: "req_date req \<notin> date ` set (availableSlots d)"
    by (simp add: find_date_None)
  let ?av = "availableSlots d @ [\<lparr>date = req_date req, slots = req_slots req\<rparr>]"
  have f1: "setAvailability req s =
           (Response 200 (DoctorUpdated ''Availability updated'' (d\<lparr>availableSlots := ?av\<rparr>)),
            s\<lparr>doctor_coll := (doctor_coll s)(req_doctorId req \<mapsto> d\<lparr>availableSlots := ?av\<rparr>)\<rparr>)"
    using doc None by (simp add: setAvailability_def Let_def)
  have f2: "distinct (map date ?av)" using uniq absent by simp
  have f3: "filter (\<lambda>e. date e \<noteq> req_date req) ?av =
           filter (\<lambda>e. date e \<noteq> req_date req) (availableSlots d)" by simp
  have f4: "\<forall>e \<in> set ?av. date e = req_date req \<longrightarrow> slots e = req_slots req"
    using absent by force
  have f5: "\<exists>e \<in> set ?av. date e = req_date req" by simp
  have f6: "(if req_date req \<in> date ` set (availableSlots d)
          then map date ?av = map date (availableSlots d)
          else ?av = availableSlots d @ [\<lparr>date = req_date req, slots = req_slots req\<rparr>])"
    using absent by simp
  show ?thesis
    by (rule exI [of _ ?av]) (intro conjI f1 f2 f3 f4 f5 f6)
next
  case (Some existing)
  then have present: "req_date req \<in> date ` set (availableSlots d)"
    using find_date_None [of "req_date req" "availableSlots d"] by simp
  let ?av = "assign_slots (req_date req) (req_slots req) (availableSlots d)"
  have f1: "setAvailability req s =
           (Response 200 (DoctorUpdated ''Availability updated'' (d\<lparr>availableSlots := ?av\<rparr>)),
            s\<lparr>doctor_coll := (doctor_coll s)(req_doctorId req \<mapsto> d\<lparr>availableSlots := ?av\<rparr>)\<rparr>)"
    using doc Some by (simp add: setAvailability_def Let_def)
  have dates: "map date ?av = map date (availableSlots d)"
    by (rule assign_slots_dates)
  have f2: "distinct (map date ?av)" using uniq dates by simp
  have f3: "\<exists>e \<in> set ?av. date e = req_date req"
  proof -
    have "req_date req \<in> set (map date ?av)" using present dates by simp
    then show ?thesis by auto
  qed
  have f4: "\<forall>e \<in> set ?av. date e = req_date req \<longrightarrow> slots e = req_slots req"
    using assign_slots_holds [OF uniq] by blast
  have f5: "filter (\<lambda>e. date e \<noteq> req_date req) ?av =
           filter (\<lambda>e. date e \<noteq> req_date req) (availableSlots d)"
    by (rule assign_slots_others)
  have f6: "(if req_date req \<in> date ` set (availableSlots d)
          then map date ?av = map date (availableSlots d)
          else ?av = availableSlots d @ [\<lparr>date = req_date req, slots = req_slots req\<rparr>])"
    using present dates by simp
  show ?thesis
    by (rule exI [of _ ?av]) (intro conjI f1 f2 f3 f4 f5 f6)
qed

theorem setAvailability_unique_dates_witness:
  "doctor_coll sample_db 2 = Some \<lparr>name = ''Bob'', specialization = ''Cardiology'',
               availableSlots = [\<lparr>date = ''2025-01-01'', slots = [''09:00'']\<rparr>]\<rparr> \<and>
   distinct (map date [\<lparr>date = ''2025-01-01'', slots = [''09:00'']\<rparr>]) \<and>
   (\<exists>av. fst (setAvailability \<lparr>req_doctorId = 2, req_date = ''2025-01-01'', req_slots = [''10:00'', ''11:00'']\<rparr> sample_db) =
      Response 200 (DoctorUpdated ''Availability updated'' \<lparr>name = ''Bob'', specialization = ''Cardiology'', availableSlots = av\<rparr>) \<and>
      distinct (map date av) \<and> map date av = [''2025-01-01''] \<and>
      (\<forall>e \<in> set av. date e = ''2025-01-01'' \<longrightarrow> slots e = [''10:00'', ''11:00'']))"
proof -
  let ?d = "\<lparr>name = ''Bob'', specialization = ''Cardiology'',
               availableSlots = [\<lparr>date = ''2025-01-01'', slots = [''09:00'']\<rparr>]\<rparr>"
  let ?r = "\<lparr>req_doctorId = 2, req_date = ''2025-01-01'', req_slots = [''10:00'', ''11:00'']\<rparr>"
  have h1: "doctor_coll sample_db (req_doctorId ?r) = Some ?d"
    by (simp add: sample_db_def)
  have h2: "distinct (map date (availableSlots ?d))"
    by simp
  from setAvailability_unique_dates [OF h1 h2] obtain av where
    av: "setAvailability ?r sample_db =
           (Response 200 (DoctorUpdated ''Availability updated'' (?d\<lparr>availableSlots := av\<rparr>)),
            sample_db\<lparr>doctor_coll := (doctor_coll sample_db)(req_doctorId ?r \<mapsto> ?d\<lparr>availableSlots := av\<rparr>)\<rparr>) \<and>
         distinct (map date av) \<and>
         (\<exists>e \<in> set av. date e = req_date ?r) \<and>
         (\<forall>e \<in> set av. date e = req_date ?r \<longrightarrow> slots e = req_slots ?r) \<and>
         filter (\<lambda>e. date e \<noteq> req_date ?r) av =
           filter (\<lambda>e. date e \<noteq> req_date ?r) (availableSlots ?d) \<and>
         (if req_date ?r \<in> date ` set (availableSlots ?d)
          then map date av = map date (availableSlots ?d)
          else av = availableSlots ?d @ [\<lparr>date = req_date ?r, slots = req_slots ?r\<rparr>])" ..
  from av have r: "fst (setAvailability ?r sample_db) =
      Response 200 (DoctorUpdated ''Availability updated'' \<lparr>name = ''Bob'', specialization = ''Cardiology'', availableSlots = av\<rparr>)"
    by simp
  from av have u: "distinct (map date av)" by simp
  from av have m: "map date av = [''2025-01-01'']" by simp
  from av have e: "\<forall>e \<in> set av. date e = ''2025-01-01'' \<longrightarrow> slots e = [''10:00'', ''11:00'']" by simp
  from h1 have h1': "doctor_coll sample_db 2 = Some ?d" by simp
  from r u m e have "\<exists>av. fst (setAvailability ?r sample_db) =
      Response 200 (DoctorUpdated ''Availability updated'' \<lparr>name = ''Bob'', specialization = ''Cardiology'', availableSlots = av\<rparr>) \<and>
      distinct (map date av) \<and> map date av = [''2025-01-01''] \<and>
      (\<forall>e \<in> set av. date e = ''2025-01-01'' \<longrightarrow> slots e = [''10:00'', ''11:00''])"
    by (intro exI [of _ av] conjI)
  with h1' h2 show ?thesis by simp
qed

text \<open>
  C10. markAppointmentCompleted answers 404 and changes nothing when no appointment with
  the given id belongs to the requesting doctor; it answers 400 and changes nothing when
  that appointment is already completed; otherwise it answers 200 and the store differs
  only in that appointment, which differs only in its status, now "completed".
\<close>

theorem markAppointmentCompleted_guarded:
  "((\<forall>a. appointment_coll s (req_appointmentId req) = Some a \<longrightarrow>
        doctorId a \<noteq> req_doctor_user_id req) \<longrightarrow>
      markAppointmentCompleted req s =
        (Response 404 (Message ''Appointment not found or unauthorized''), s)) \<and>
   (\<forall>a. appointment_coll s (req_appointmentId req) = Some a \<and>
        doctorId a = req_doctor_user_id req \<longrightarrow>
      (status a = ''completed'' \<longrightarrow>
         markAppointmentCompleted req s =
           (Response 400 (Message ''Appointment already marked as completed''), s)) \<and>
      (status a \<noteq> ''completed'' \<longrightarrow>
         markAppointmentCompleted req s =
           (Response 200
              (AppointmentUpdated ''Appointment marked as completed successfully''
                 (a\<lparr>status := ''completed''\<rparr>)),
            s\<lparr>appointment_coll :=
                (appointment_coll s)(req_appointmentId req \<mapsto> a\<lparr>status := ''completed''\<rparr>)\<rparr>)))"
  by (auto simp: markAppointmentCompleted_def Appointment_findOne_def Let_def
      split: option.splits)

theorem markAppointmentCompleted_guarded_witness:
  "appointment_coll sample_db 99 = None \<and>
   markAppointmentCompleted \<lparr>req_doctor_user_id = 2, req_appointmentId = 99\<rparr> sample_db =
     (Response 404 (Message ''Appointment not found or unauthorized''), sample_db) \<and>
   markAppointmentCompleted \<lparr>req_doctor_user_id = 7, req_appointmentId = 30\<rparr> sample_db =
     (Response 404 (Message ''Appointment not found or unauthorized''), sample_db) \<and>
   markAppointmentCompleted \<lparr>req_doctor_user_id = 2, req_appointmentId = 31\<rparr> sample_db =
     (Response 400 (Message ''Appointment already marked as completed''), sample_db) \<and>
   markAppointmentCompleted \<lparr>req_doctor_user_id = 2, req_appointmentId = 30\<rparr> sample_db =
     (Response 200
        (AppointmentUpdated ''Appointment marked as completed successfully''
           \<lparr>userId = 3, doctorId = 2, appointment_date = ''2025-01-01'',
            status = ''completed''\<rparr>),
      sample_db\<lparr>appointment_coll := (appointment_coll sample_db)(30 \<mapsto>
           \<lparr>userId = 3, doctorId = 2, appointment_date = ''2025-01-01'',
            status = ''completed''\<rparr>)\<rparr>)"
proof -
  have a99: "appointment_coll sample_db 99 = None"
    and a30: "appointment_coll sample_db 30 =
      Some \<lparr>userId = 3, doctorId = 2, appointment_date = ''2025-01-01'', status = ''pending''\<rparr>"
    and a31: "appointment_coll sample_db 31 =
      Some \<lparr>userId = 3, doctorId = 2, appointment_date = ''2025-01-02'', status = ''completed''\<rparr>"
    by (simp_all add: sample_db_def)
  show ?thesis
    using a99 a30 a31
      markAppointmentCompleted_guarded [of sample_db "\<lparr>req_doctor_user_id = 2, req_appointmentId = 99\<rparr>"]
      markAppointmentCompleted_guarded [of sample_db "\<lparr>req_doctor_user_id = 7, req_appointmentId = 30\<rparr>"]
      markAppointmentCompleted_guarded [of sample_db "\<lparr>req_doctor_user_id = 2, req_appointmentId = 31\<rparr>"]
      markAppointmentCompleted_guarded [of sample_db "\<lparr>req_doctor_user_id = 2, req_appointmentId = 30\<rparr>"]
    by simp
qed

end
